theory Spec2Isabelle
  imports Complex_Main
begin

section \<open>NumPy scalars and one-dimensional arrays\<close>

text \<open>
  The notebooks compute with NumPy scalars. A \<open>float64\<close> is modelled by its value:
  a finite number (taken as an exact real: the rounding of a reported score is not
  modelled; where a rounded number decides a comparison the arithmetic is float64's
  to the bit, see the section on float64 arithmetic), one of the two infinities, or
  not-a-number. Division of NumPy scalars by zero does not raise:
  it gives \<open>inf\<close> or \<open>nan\<close> and a RuntimeWarning, and every notebook starts with
  \<^verbatim>\<open>warnings.filterwarnings("ignore")\<close>. Every zero that reaches a division in the
  notebooks is a positive zero (an integer count, or \<open>1 - x\<close>, or a sum of
  non-negative numbers), so one zero is enough.
\<close>

datatype npfloat = Fin real | PInf | NInf | NaN

fun np_neg :: "npfloat \<Rightarrow> npfloat" where
  "np_neg (Fin a) = Fin (- a)"
| "np_neg PInf = NInf"
| "np_neg NInf = PInf"
| "np_neg NaN = NaN"

fun np_add :: "npfloat \<Rightarrow> npfloat \<Rightarrow> npfloat" where
  "np_add (Fin a) (Fin b) = Fin (a + b)"
| "np_add NaN y = NaN"
| "np_add x NaN = NaN"
| "np_add PInf NInf = NaN"
| "np_add NInf PInf = NaN"
| "np_add PInf y = PInf"
| "np_add NInf y = NInf"
| "np_add x PInf = PInf"
| "np_add x NInf = NInf"

definition np_sub :: "npfloat \<Rightarrow> npfloat \<Rightarrow> npfloat" where
  "np_sub x y = np_add x (np_neg y)"

text \<open>The sign of a product or quotient with an infinite operand.\<close>

definition np_signed_inf :: "bool \<Rightarrow> npfloat" where
  "np_signed_inf negative = (if negative then NInf else PInf)"

fun np_mul :: "npfloat \<Rightarrow> npfloat \<Rightarrow> npfloat" where
  "np_mul (Fin a) (Fin b) = Fin (a * b)"
| "np_mul NaN y = NaN"
| "np_mul x NaN = NaN"
| "np_mul (Fin a) PInf = (if a = 0 then NaN else np_signed_inf (a < 0))"
| "np_mul (Fin a) NInf = (if a = 0 then NaN else np_signed_inf (0 < a))"
| "np_mul PInf (Fin b) = (if b = 0 then NaN else np_signed_inf (b < 0))"
| "np_mul NInf (Fin b) = (if b = 0 then NaN else np_signed_inf (0 < b))"
| "np_mul PInf PInf = PInf"
| "np_mul PInf NInf = NInf"
| "np_mul NInf PInf = NInf"
| "np_mul NInf NInf = PInf"

fun np_div :: "npfloat \<Rightarrow> npfloat \<Rightarrow> npfloat" where
  "np_div (Fin a) (Fin b) =
     (if b = 0 then (if a = 0 then NaN else np_signed_inf (a < 0)) else Fin (a / b))"
| "np_div NaN y = NaN"
| "np_div x NaN = NaN"
| "np_div (Fin a) PInf = Fin 0"
| "np_div (Fin a) NInf = Fin 0"
| "np_div PInf (Fin b) = np_signed_inf (b < 0)"
| "np_div NInf (Fin b) = np_signed_inf (0 \<le> b)"
| "np_div PInf PInf = NaN"
| "np_div PInf NInf = NaN"
| "np_div NInf PInf = NaN"
| "np_div NInf NInf = NaN"

text \<open>
  \<^verbatim>\<open>np.sum\<close> of a boolean array is an integer count; \<open>/\<close> on two such counts is
  true division to \<open>float64\<close>; \<^verbatim>\<open>np.mean\<close> of a boolean array is the count of
  \<open>True\<close> over the length (\<open>nan\<close> for an empty array).
\<close>

definition np_sum :: "bool list \<Rightarrow> nat" where
  "np_sum bs = length (filter (\<lambda>b. b) bs)"

definition np_int_div :: "nat \<Rightarrow> nat \<Rightarrow> npfloat" where
  "np_int_div a b = np_div (Fin (real a)) (Fin (real b))"

definition np_mean :: "bool list \<Rightarrow> npfloat" where
  "np_mean bs = np_int_div (np_sum bs) (length bs)"

text \<open>
  An elementwise operation on two one-dimensional arrays broadcasts an array of
  length one against the other and raises \<open>ValueError\<close> when the shapes do not fit.
  (\<open>ZeroDivisionError\<close> is Python's, raised by a division of Python numbers.)
\<close>

datatype np_error = ValueError | ZeroDivisionError

definition np_broadcast :: "'a list \<Rightarrow> 'b list \<Rightarrow> np_error + ('a \<times> 'b) list" where
  "np_broadcast xs ys =
     (if length xs = length ys then Inr (zip xs ys)
      else if length xs = 1 then Inr (zip (replicate (length ys) (hd xs)) ys)
      else if length ys = 1 then Inr (zip xs (replicate (length xs) (hd ys)))
      else Inl ValueError)"

definition np_logical_and :: "bool list \<Rightarrow> bool list \<Rightarrow> np_error + bool list" where
  "np_logical_and xs ys =
     (case np_broadcast xs ys of Inl e \<Rightarrow> Inl e
      | Inr ps \<Rightarrow> Inr (map (\<lambda>(p, q). p \<and> q) ps))"

definition np_equal :: "real list \<Rightarrow> real list \<Rightarrow> np_error + bool list" where
  "np_equal xs ys =
     (case np_broadcast xs ys of Inl e \<Rightarrow> Inl e
      | Inr ps \<Rightarrow> Inr (map (\<lambda>(p, q). p = q) ps))"

text \<open>
  Comparing an array with the scalar 1 or 0. A boolean counts as 1 (\<open>True\<close>) or
  0 (\<open>False\<close>) in a comparison with a number.
\<close>

definition np_eq_scalar :: "real list \<Rightarrow> real \<Rightarrow> bool list" where
  "np_eq_scalar xs c = map (\<lambda>x. x = c) xs"

definition np_bool_eq_scalar :: "bool list \<Rightarrow> real \<Rightarrow> bool list" where
  "np_bool_eq_scalar bs c = map (\<lambda>b. (if b then 1 else 0) = c) bs"

section \<open>calculate_accuracy (notebook 06)\<close>

record results =
  observed_positive_rate :: npfloat
  observed_negative_rate :: npfloat
  predicted_positive_rate :: npfloat
  predicted_negative_rate :: npfloat
  accuracy :: npfloat
  precision :: npfloat
  recall :: npfloat
  f1 :: npfloat
  sensitivity :: npfloat
  specificity :: npfloat
  positive_likelihood :: npfloat
  negative_likelihood :: npfloat
  false_positive_rate :: npfloat
  false_negative_rate :: npfloat
  true_positive_rate :: npfloat
  true_negative_rate :: npfloat
  positive_predictive_value :: npfloat
  negative_predictive_value :: npfloat

text \<open>
  The function takes lists or arrays of numbers or booleans; a list is turned into
  an array first, so both are lists of values here. The arithmetic of the function
  once the boolean masks exist comes first; the names and the order of the
  assignments are the source's.
\<close>

definition accuracy_scores ::
  "bool list \<Rightarrow> bool list \<Rightarrow> bool list \<Rightarrow> bool list \<Rightarrow>
   bool list \<Rightarrow> bool list \<Rightarrow> bool list \<Rightarrow> bool list \<Rightarrow> results" where
  "accuracy_scores observed_positives observed_negatives predicted_positives
       predicted_negatives true_positives false_positives true_negatives matches =
    (let accuracy = np_mean matches;
         precision = np_int_div (np_sum true_positives)
                       (np_sum true_positives + np_sum false_positives);
         recall = np_int_div (np_sum true_positives) (np_sum observed_positives);
         sensitivity = recall;
         f1 = np_mul (Fin 2) (np_div (np_mul precision recall) (np_add precision recall));
         specificity = np_int_div (np_sum true_negatives) (np_sum observed_negatives);
         positive_likelihood = np_div sensitivity (np_sub (Fin 1) specificity);
         negative_likelihood = np_div (np_sub (Fin 1) sensitivity) specificity;
         false_positive_rate = np_sub (Fin 1) specificity;
         false_negative_rate = np_sub (Fin 1) sensitivity;
         true_positive_rate = sensitivity;
         true_negative_rate = specificity;
         positive_predictive_value =
           np_int_div (np_sum true_positives) (np_sum observed_positives);
         negative_predictive_value =
           np_int_div (np_sum true_negatives) (np_sum observed_positives)
     in \<lparr> observed_positive_rate = np_mean observed_positives,
          observed_negative_rate = np_mean observed_negatives,
          predicted_positive_rate = np_mean predicted_positives,
          predicted_negative_rate = np_mean predicted_negatives,
          accuracy = accuracy,
          precision = precision,
          recall = recall,
          f1 = f1,
          sensitivity = sensitivity,
          specificity = specificity,
          positive_likelihood = positive_likelihood,
          negative_likelihood = negative_likelihood,
          false_positive_rate = false_positive_rate,
          false_negative_rate = false_negative_rate,
          true_positive_rate = true_positive_rate,
          true_negative_rate = true_negative_rate,
          positive_predictive_value = positive_predictive_value,
          negative_predictive_value = negative_predictive_value \<rparr>)"

definition calculate_accuracy :: "real list \<Rightarrow> real list \<Rightarrow> np_error + results" where
  "calculate_accuracy observed predicted =
    (let observed_positives = np_eq_scalar observed 1;
         observed_negatives = np_eq_scalar observed 0;
         predicted_positives = np_eq_scalar predicted 1;
         predicted_negatives = np_eq_scalar predicted 0
     in
       case np_logical_and (np_bool_eq_scalar predicted_positives 1)
                           (np_bool_eq_scalar observed_positives 1) of
         Inl e \<Rightarrow> Inl e
       | Inr true_positives \<Rightarrow>
       (case np_logical_and (np_bool_eq_scalar predicted_positives 1)
                            (np_bool_eq_scalar observed_positives 0) of
         Inl e \<Rightarrow> Inl e
       | Inr false_positives \<Rightarrow>
       (case np_logical_and (np_bool_eq_scalar predicted_negatives 1)
                            (np_bool_eq_scalar observed_negatives 1) of
         Inl e \<Rightarrow> Inl e
       | Inr true_negatives \<Rightarrow>
       (case np_equal predicted observed of
         Inl e \<Rightarrow> Inl e
       | Inr matches \<Rightarrow>
           Inr (accuracy_scores observed_positives observed_negatives
                  predicted_positives predicted_negatives
                  true_positives false_positives true_negatives matches)))))"

text \<open>The masks of the function, read off the broadcast pairs (predicted, observed).\<close>

definition scores_of_pairs :: "real list \<Rightarrow> real list \<Rightarrow> (real \<times> real) list \<Rightarrow> results" where
  "scores_of_pairs observed predicted ps =
     accuracy_scores (np_eq_scalar observed 1) (np_eq_scalar observed 0)
       (np_eq_scalar predicted 1) (np_eq_scalar predicted 0)
       (map (\<lambda>(p, ob). p = 1 \<and> ob = 1) ps)
       (map (\<lambda>(p, ob). p = 1 \<and> ob \<noteq> 1) ps)
       (map (\<lambda>(p, ob). p = 0 \<and> ob = 0) ps)
       (map (\<lambda>(p, ob). p = ob) ps)"


text \<open>
  The proportion of positions at which two arrays of one length agree, counted
  position by position.
\<close>

definition proportion_equal :: "real list \<Rightarrow> real list \<Rightarrow> real" where
  "proportion_equal predicted observed =
     real (length (filter (\<lambda>i. predicted ! i = observed ! i) [0..<length observed]))
       / real (length observed)"

text \<open>
  Counts over the broadcast pairs (predicted, observed) and over one array, for
  stating what the predictive values are.
\<close>

definition count_true_positives :: "(real \<times> real) list \<Rightarrow> nat" where
  "count_true_positives ps = length (filter (\<lambda>(p, ob). p = 1 \<and> ob = 1) ps)"

definition count_true_negatives :: "(real \<times> real) list \<Rightarrow> nat" where
  "count_true_negatives ps = length (filter (\<lambda>(p, ob). p = 0 \<and> ob = 0) ps)"

definition count_equal_to :: "real \<Rightarrow> real list \<Rightarrow> nat" where
  "count_equal_to c xs = length (filter (\<lambda>x. x = c) xs)"


section \<open>float64 arithmetic\<close>

text \<open>
  Where a rounded value decides a comparison (a threshold of the ROC sweep, the mean
  accuracy of a candidate feature) the arithmetic is float64's, to the bit. A finite
  float64 is the rational number it stands for; an operation gives the exact result
  rounded to the nearest number with a significand of 53 bits, a tie going to the
  even significand. A decimal literal of the source is the float64 nearest to it.
  The exponent range is not modelled (no overflow, no subnormal numbers): the
  numbers the notebooks compute this way lie between 0.01 and 101.
\<close>

function bit_length :: "int \<Rightarrow> int" where
  "bit_length n = (if n \<le> 0 then 0 else bit_length (n div 2) + 1)"
  by pat_completeness auto
termination
  by (relation "measure nat") auto

declare bit_length.simps [simp del]

definition pow2 :: "int \<Rightarrow> rat" where
  "pow2 k = (if 0 \<le> k then 2 ^ nat k else 1 / 2 ^ nat (- k))"

text \<open>\<open>floor_log2 x\<close> is the integer \<open>k\<close> with \<open>2^k \<le> x < 2^(k+1)\<close>, for a positive \<open>x\<close>.\<close>

definition floor_log2 :: "rat \<Rightarrow> int" where
  "floor_log2 x =
     (case quotient_of x of (p, q) \<Rightarrow>
        let k = bit_length p - bit_length q
        in if pow2 k \<le> x then k else k - 1)"

definition round_half_even :: "rat \<Rightarrow> int" where
  "round_half_even y =
     (let f = \<lfloor>y\<rfloor>; r = y - of_int f
      in if r < 1 / 2 then f else if 1 / 2 < r then f + 1
         else if even f then f else f + 1)"

definition round64 :: "rat \<Rightarrow> rat" where
  "round64 x =
     (if x = 0 then 0
      else let e = floor_log2 \<bar>x\<bar> - 52;
               m = round_half_even (\<bar>x\<bar> / pow2 e)
           in sgn x * of_int m * pow2 e)"

definition float64_add :: "rat \<Rightarrow> rat \<Rightarrow> rat" where
  "float64_add a b = round64 (a + b)"

definition float64_sub :: "rat \<Rightarrow> rat \<Rightarrow> rat" where
  "float64_sub a b = round64 (a - b)"

definition float64_mul :: "rat \<Rightarrow> rat \<Rightarrow> rat" where
  "float64_mul a b = round64 (a * b)"

definition float64_div :: "rat \<Rightarrow> rat \<Rightarrow> rat" where
  "float64_div a b = round64 (a / b)"

section \<open>The manual ROC sweep (notebook 06)\<close>

text \<open>
  \<^verbatim>\<open>np.arange(start, stop, step)\<close> on Python floats: the length is the ceiling of
  the float64 quotient \<open>(stop - start) / step\<close> (a zero step raises
  \<open>ZeroDivisionError\<close>); the first entry is \<open>start\<close>, the second the float64 sum
  \<open>start + step\<close>, and with \<open>delta\<close> the float64 difference of these two the
  \<open>i\<close>-th entry is \<open>start + i * delta\<close>, the product and the sum each rounded.
\<close>

definition np_arange :: "rat \<Rightarrow> rat \<Rightarrow> rat \<Rightarrow> np_error + rat list" where
  "np_arange start stop step =
     (if step = 0 then Inl ZeroDivisionError
      else let len = \<lceil>float64_div (float64_sub stop start) step\<rceil>
           in if len \<le> 0 then Inr []
              else let second = float64_add start step;
                       delta = float64_sub second start
                   in Inr (map (\<lambda>i. if i = 0 then start else if i = 1 then second
                                     else float64_add start (float64_mul (of_nat i) delta))
                             [0..<nat len]))"

text \<open>
  \<^verbatim>\<open>thresholds = np.arange(0, 1.01, 0.01)\<close>; \<open>thresholds\<close> is the array the call
  returns, as the list of the real numbers its entries stand for.
\<close>

definition thresholds_arange :: "np_error + rat list" where
  "thresholds_arange = np_arange 0 (round64 (101 / 100)) (round64 (1 / 100))"

definition thresholds :: "real list" where
  "thresholds = (case thresholds_arange of Inl e \<Rightarrow> [] | Inr ts \<Rightarrow> map real_of_rat ts)"

text \<open>
  \<^verbatim>\<open>probability_survival >= cutoff\<close> is a boolean array; where calculate_accuracy
  compares its entries with numbers, \<open>True\<close> is 1 and \<open>False\<close> is 0.
\<close>

definition np_greater_equal :: "real list \<Rightarrow> real \<Rightarrow> bool list" where
  "np_greater_equal xs c = map (\<lambda>x. c \<le> x) xs"

definition np_bool_values :: "bool list \<Rightarrow> real list" where
  "np_bool_values bs = map (\<lambda>b. if b then 1 else 0) bs"

text \<open>
  The loop over the thresholds, with the two lists it appends to as its state. An
  exception of calculate_accuracy ends the loop. (The source names the returned
  dictionary \<open>accuracy\<close>, which is a field name here.)
\<close>

fun roc_loop ::
  "real list \<Rightarrow> real list \<Rightarrow> real list \<Rightarrow> npfloat list \<times> npfloat list
     \<Rightarrow> np_error + (npfloat list \<times> npfloat list)" where
  "roc_loop y_test probability_survival [] (curve_fpr, curve_tpr) =
     Inr (curve_fpr, curve_tpr)"
| "roc_loop y_test probability_survival (cutoff # rest) (curve_fpr, curve_tpr) =
     (let predicted_survived = np_bool_values (np_greater_equal probability_survival cutoff)
      in case calculate_accuracy y_test predicted_survived of
           Inl e \<Rightarrow> Inl e
         | Inr accuracy_dict \<Rightarrow>
             roc_loop y_test probability_survival rest
               (curve_fpr @ [false_positive_rate accuracy_dict],
                curve_tpr @ [true_positive_rate accuracy_dict]))"

definition roc_sweep :: "real list \<Rightarrow> real list \<Rightarrow> np_error + (npfloat list \<times> npfloat list)" where
  "roc_sweep y_test probability_survival =
     (case thresholds_arange of
        Inl e \<Rightarrow> Inl e
      | Inr ts \<Rightarrow> roc_loop y_test probability_survival (map real_of_rat ts) ([], []))"

text \<open>The entry of \<open>curve_tpr\<close> at one index after the sweep.\<close>

definition swept_true_positive_rate :: "nat \<Rightarrow> real list \<Rightarrow> real list \<Rightarrow> np_error + npfloat" where
  "swept_true_positive_rate i y_test probability_survival =
     (case roc_sweep y_test probability_survival of
        Inl e \<Rightarrow> Inl e
      | Inr (curve_fpr, curve_tpr) \<Rightarrow> Inr (curve_tpr ! i))"

text \<open>
  The rates of the classifier that predicts survival exactly when the predicted
  probability is at least \<open>t\<close>, counted position by position: true
  positives over observed positives, and one minus true negatives over observed
  negatives.
\<close>

definition classifier_true_positive_rate :: "real list \<Rightarrow> real list \<Rightarrow> real \<Rightarrow> npfloat" where
  "classifier_true_positive_rate y_test probability_survival t =
     np_int_div
       (length (filter (\<lambda>i. t \<le> probability_survival ! i \<and> y_test ! i = 1)
                  [0..<length y_test]))
       (count_equal_to 1 y_test)"

definition classifier_false_positive_rate :: "real list \<Rightarrow> real list \<Rightarrow> real \<Rightarrow> npfloat" where
  "classifier_false_positive_rate y_test probability_survival t =
     np_sub (Fin 1)
       (np_int_div
          (length (filter (\<lambda>i. \<not> t \<le> probability_survival ! i \<and> y_test ! i = 0)
                     [0..<length y_test]))
          (count_equal_to 0 y_test))"

section \<open>Greedy forward feature selection (notebook 10)\<close>

text \<open>
  Splitting, standardising, fitting and predicting are library calls. The parameter
  \<open>accuracy_test features_to_use k\<close> stands for the test accuracy
  \<^verbatim>\<open>np.mean(y_pred_test == y_test)\<close> of the logistic regression fitted on the
  columns \<open>features_to_use\<close> in split \<open>k\<close> of the stratified k-fold, a float64.
  The source's \<open>feature_accuracy\<close> is \<^verbatim>\<open>np.mean\<close> of the list of these five
  numbers, which adds them from left to right in float64, starting from 0, and
  divides the sum by their number.
\<close>

definition number_of_splits :: nat where
  "number_of_splits = 5"

definition feature_accuracy :: "(string list \<Rightarrow> nat \<Rightarrow> rat) \<Rightarrow> string list \<Rightarrow> rat" where
  "feature_accuracy accuracy_test features_to_use =
     float64_div
       (foldl float64_add 0 (map (accuracy_test features_to_use) [0..<number_of_splits]))
       (of_nat number_of_splits)"

text \<open>The loop over the available features, carrying the best result and feature.\<close>

fun available_loop ::
  "(string list \<Rightarrow> nat \<Rightarrow> rat) \<Rightarrow> string list \<Rightarrow> string list \<Rightarrow> rat \<times> string
     \<Rightarrow> rat \<times> string" where
  "available_loop accuracy_test chosen [] (best_result, best_feature) =
     (best_result, best_feature)"
| "available_loop accuracy_test chosen (feature # rest) (best_result, best_feature) =
     (let features_to_use = chosen @ [feature];
          this_accuracy = feature_accuracy accuracy_test features_to_use
      in if this_accuracy > best_result
         then available_loop accuracy_test chosen rest (this_accuracy, feature)
         else available_loop accuracy_test chosen rest (best_result, best_feature))"

record selection =
  accuracy_by_feature_number :: "rat list"
  chosen_features :: "string list"
  available_features :: "string list"
  run :: nat

text \<open>
  One pass of the outer loop. \<^verbatim>\<open>available_features.remove(best_feature)\<close> raises
  \<open>ValueError\<close> when the feature is not in the list, which is the case when no
  candidate beat the initial \<open>best_result = 0\<close> and \<open>best_feature\<close> is still \<open>''\<close>.
\<close>

definition selection_step ::
  "(string list \<Rightarrow> nat \<Rightarrow> rat) \<Rightarrow> selection \<Rightarrow> np_error + selection" where
  "selection_step accuracy_test s =
     (case available_loop accuracy_test (chosen_features s) (available_features s) (0, '''')
      of (best_result, best_feature) \<Rightarrow>
        if best_feature \<in> set (available_features s)
        then Inr \<lparr> accuracy_by_feature_number = accuracy_by_feature_number s @ [best_result],
                   chosen_features = chosen_features s @ [best_feature],
                   available_features = remove1 best_feature (available_features s),
                   run = run s + 1 \<rparr>
        else Inl ValueError)"

fun selection_loop ::
  "(string list \<Rightarrow> nat \<Rightarrow> rat) \<Rightarrow> nat \<Rightarrow> selection \<Rightarrow> np_error + selection" where
  "selection_loop accuracy_test 0 s = Inr s"
| "selection_loop accuracy_test (Suc n) s =
     (case selection_step accuracy_test s of
        Inl e \<Rightarrow> Inl e
      | Inr s' \<Rightarrow> selection_loop accuracy_test n s')"

definition maximum_features_to_choose :: nat where
  "maximum_features_to_choose = 20"

definition feature_selection ::
  "(string list \<Rightarrow> nat \<Rightarrow> rat) \<Rightarrow> string list \<Rightarrow> np_error + selection" where
  "feature_selection accuracy_test feature_names =
     selection_loop accuracy_test maximum_features_to_choose
       \<lparr> accuracy_by_feature_number = [], chosen_features = [],
         available_features = feature_names, run = 0 \<rparr>"

text \<open>
  What one pass chooses: a candidate \<open>f\<close> of the list \<open>candidates\<close> whose mean
  accuracy \<open>a\<close> (with the features chosen so far) no candidate exceeds, and which
  every candidate before it in the list stays strictly below.
\<close>

definition greedy_choice ::
  "(string list \<Rightarrow> nat \<Rightarrow> rat) \<Rightarrow> string list \<Rightarrow> string list \<Rightarrow> string \<Rightarrow> rat \<Rightarrow> bool" where
  "greedy_choice accuracy_test chosen candidates f a =
     (\<exists>before after. candidates = before @ f # after
        \<and> a = feature_accuracy accuracy_test (chosen @ [f])
        \<and> (\<forall>g \<in> set before. feature_accuracy accuracy_test (chosen @ [g]) < a)
        \<and> (\<forall>g \<in> set after. feature_accuracy accuracy_test (chosen @ [g]) \<le> a))"

text \<open>
  Fold accuracies for concrete runs: 0.8 for every feature list and split; and, for
  two features, the accuracies 0.5, 0.5, 0.5, 0.6, 0.7 of the first against the same
  five numbers in the order 0.5, 0.7, 0.5, 0.5, 0.6 of the second.
\<close>

definition flat_accuracy :: "string list \<Rightarrow> nat \<Rightarrow> rat" where
  "flat_accuracy features_to_use k = round64 (4 / 5)"

definition reordered_accuracy :: "string list \<Rightarrow> nat \<Rightarrow> rat" where
  "reordered_accuracy features_to_use k =
     (if features_to_use = [''x0'']
      then map round64 [1 / 2, 1 / 2, 1 / 2, 3 / 5, 7 / 10] ! k
      else map round64 [1 / 2, 7 / 10, 1 / 2, 1 / 2, 3 / 5] ! k)"

section \<open>Statistics along the first axis\<close>

text \<open>
  A two-dimensional array is the list of its rows. \<^verbatim>\<open>mean\<close>, \<^verbatim>\<open>var\<close> and \<^verbatim>\<open>std\<close>
  along axis 0 work column by column; the variance is the population variance (the
  mean of the squared deviations), as NumPy and scikit-learn compute it.
\<close>

definition np_column :: "real list list \<Rightarrow> nat \<Rightarrow> real list" where
  "np_column X j = map (\<lambda>row. row ! j) X"

definition np_mean_values :: "real list \<Rightarrow> real" where
  "np_mean_values xs = sum_list xs / real (length xs)"

definition np_var_values :: "real list \<Rightarrow> real" where
  "np_var_values xs = np_mean_values (map (\<lambda>x. (x - np_mean_values xs)\<^sup>2) xs)"

definition np_std_values :: "real list \<Rightarrow> real" where
  "np_std_values xs = sqrt (np_var_values xs)"

definition n_features :: "real list list \<Rightarrow> nat" where
  "n_features X = length (hd X)"

definition np_mean_axis0 :: "real list list \<Rightarrow> real list" where
  "np_mean_axis0 X = map (\<lambda>j. np_mean_values (np_column X j)) [0..<n_features X]"

definition np_std_axis0 :: "real list list \<Rightarrow> real list" where
  "np_std_axis0 X = map (\<lambda>j. np_std_values (np_column X j)) [0..<n_features X]"

section \<open>standardise_data (notebooks 06 and 10)\<close>

text \<open>
  Modelled from the spec: \<open>StandardScaler\<close> is scikit-learn's class, which the
  notebooks import; its code is not in the repository. The glossary describes
  standardisation as rescaling each feature to zero mean and unit variance using
  training-set statistics, and the notebook adds that the mean is subtracted, the
  result divided by the standard deviation of the training data, and that the
  method copes with a feature of zero standard deviation in the training set.
  \<open>fit\<close> stores the column means and the column standard deviations, a zero
  standard deviation replaced by 1; \<open>transform\<close> subtracts the stored mean and
  divides by the stored scale. Both reject an array without rows, \<open>fit\<close> one
  without columns, and \<open>transform\<close> one whose number of columns differs from the
  fitted one.
\<close>

record standard_scaler =
  scaler_mean :: "real list"
  scaler_scale :: "real list"

definition handle_zeros_in_scale :: "real \<Rightarrow> real" where
  "handle_zeros_in_scale s = (if s = 0 then 1 else s)"

definition scaler_fit :: "real list list \<Rightarrow> np_error + standard_scaler" where
  "scaler_fit X =
     (if X = [] \<or> hd X = [] then Inl ValueError
      else Inr \<lparr> scaler_mean = np_mean_axis0 X,
                 scaler_scale = map handle_zeros_in_scale (np_std_axis0 X) \<rparr>)"

definition scaler_transform ::
  "standard_scaler \<Rightarrow> real list list \<Rightarrow> np_error + real list list" where
  "scaler_transform sc X =
     (if X = [] \<or> n_features X \<noteq> length (scaler_mean sc) then Inl ValueError
      else Inr (map (\<lambda>row. map (\<lambda>j. (row ! j - scaler_mean sc ! j) / scaler_scale sc ! j)
                              [0..<length (scaler_mean sc)]) X))"

text \<open>The function of the notebooks: fit on the training set, transform both sets.\<close>

definition standardise_data ::
  "real list list \<Rightarrow> real list list \<Rightarrow> np_error + (real list list \<times> real list list)" where
  "standardise_data X_train X_test =
     (case scaler_fit X_train of
        Inl e \<Rightarrow> Inl e
      | Inr sc \<Rightarrow>
        (case scaler_transform sc X_train of
           Inl e \<Rightarrow> Inl e
         | Inr train_std \<Rightarrow>
           (case scaler_transform sc X_test of
              Inl e \<Rightarrow> Inl e
            | Inr test_std \<Rightarrow> Inr (train_std, test_std))))"

section \<open>Monte Carlo Dropout\<close>





section \<open>The download cell\<close>

text \<open>
  What the cell can touch: the directories and the regular files below the working
  directory, and the web, of which the list of the URLs requested by HTTP GET is
  kept. Paths are kept in the form \<^verbatim>\<open>a/b\<close>: \<^verbatim>\<open>./data/\<close> and \<^verbatim>\<open>data\<close> name one
  directory, \<^verbatim>\<open>./data/processed_data.csv\<close> and \<^verbatim>\<open>data/processed_data.csv\<close> one
  file. Variables of the notebook are not part of this state.
\<close>

record world =
  directories :: "string set"
  files :: "string \<rightharpoonup> string"
  requests :: "string list"

datatype io_error = URLError | FileExistsError | FileNotFoundError | IsADirectoryError

definition normpath :: "string \<Rightarrow> string" where
  "normpath p =
     (let q = (if take 2 p = ''./'' then drop 2 p else p)
      in if q \<noteq> [] \<and> last q = CHR ''/'' then butlast q else q)"

definition dirname :: "string \<Rightarrow> string" where
  "dirname p = rev (drop 1 (dropWhile (\<lambda>c. c \<noteq> CHR ''/'') (rev (normpath p))))"

text \<open>
  \<^verbatim>\<open>pd.read_csv(url)\<close> requests the URL once; \<open>remote\<close> is what the web answers
  (\<open>None\<close> when the request or the parsing fails, which raises).
\<close>

definition pd_read_csv ::
  "(string \<Rightarrow> 'df option) \<Rightarrow> string \<Rightarrow> world \<Rightarrow> (io_error + 'df) \<times> world" where
  "pd_read_csv remote url w =
     (case remote url of None \<Rightarrow> Inl URLError | Some df \<Rightarrow> Inr df,
      w\<lparr>requests := requests w @ [url]\<rparr>)"

text \<open>
  \<^verbatim>\<open>os.path.exists\<close>: a path with a trailing slash exists only as a directory.
\<close>

definition os_path_exists :: "string \<Rightarrow> world \<Rightarrow> bool" where
  "os_path_exists p w =
     (normpath p \<in> directories w
      \<or> (p \<noteq> [] \<and> last p \<noteq> CHR ''/'' \<and> normpath p \<in> dom (files w)))"

text \<open>
  \<^verbatim>\<open>os.makedirs\<close>, for a directory directly below the working directory (the only
  use in the notebooks): it fails when the name is taken.
\<close>

definition os_makedirs :: "string \<Rightarrow> world \<Rightarrow> io_error + world" where
  "os_makedirs p w =
     (if normpath p \<in> directories w \<or> normpath p \<in> dom (files w) then Inl FileExistsError
      else Inr (w\<lparr>directories := insert (normpath p) (directories w)\<rparr>))"

text \<open>
  \<^verbatim>\<open>DataFrame.to_csv(path, index=...)\<close> creates or overwrites the file with the text
  of the table; \<open>csv_text\<close> is that text, with or without the index column.
\<close>

definition to_csv ::
  "(bool \<Rightarrow> 'df \<Rightarrow> string) \<Rightarrow> 'df \<Rightarrow> string \<Rightarrow> bool \<Rightarrow> world \<Rightarrow> io_error + world" where
  "to_csv csv_text df p index w =
     (if normpath p \<in> directories w then Inl IsADirectoryError
      else if dirname p \<noteq> [] \<and> dirname p \<notin> directories w then Inl FileNotFoundError
      else Inr (w\<lparr>files := (files w)(normpath p \<mapsto> csv_text index df)\<rparr>))"

definition address :: string where
  "address = ''https://raw.githubusercontent.com/MichaelAllen1966/''
               @ ''1804_python_healthcare/master/titanic/data/processed_data.csv''"

definition data_directory :: string where
  "data_directory = ''./data/''"

text \<open>
  The cell. An exception ends it and leaves what was done before; the result is the
  exception, if any, and the world after the cell. \<open>index\<close> is \<open>False\<close> where the
  notebook passes \<^verbatim>\<open>index=False\<close> and \<open>True\<close> (the default) where it does not.
\<close>

definition download_cell ::
  "(string \<Rightarrow> 'df option) \<Rightarrow> (bool \<Rightarrow> 'df \<Rightarrow> string) \<Rightarrow> bool \<Rightarrow> bool \<Rightarrow> world
     \<Rightarrow> io_error option \<times> world" where
  "download_cell remote csv_text index download_required w =
     (if download_required then
        (case pd_read_csv remote address w of
           (Inl e, w1) \<Rightarrow> (Some e, w1)
         | (Inr data, w1) \<Rightarrow>
             (case (if \<not> os_path_exists data_directory w1
                    then os_makedirs data_directory w1 else Inr w1) of
                Inl e \<Rightarrow> (Some e, w1)
              | Inr w2 \<Rightarrow>
                  (case to_csv csv_text data (data_directory @ ''processed_data.csv'') index w2 of
                     Inl e \<Rightarrow> (Some e, w2)
                   | Inr w3 \<Rightarrow> (None, w3))))
      else (None, w))"

text \<open>An empty working directory and a web that serves one table, for concrete runs.\<close>

definition empty_world :: world where
  "empty_world = \<lparr> directories = {}, files = Map.empty, requests = [] \<rparr>"

definition one_table :: "string \<Rightarrow> string option" where
  "one_table url = (if url = address then Some ''Survived,Age'' else None)"

definition plain_text :: "bool \<Rightarrow> string \<Rightarrow> string" where
  "plain_text index df = (if index then '','' @ df else df)"

section \<open>Properties of calculate_accuracy\<close>

lemma np_broadcast_same: "length xs = length ys \<Longrightarrow> np_broadcast xs ys = Inr (zip xs ys)"
  by (simp add: np_broadcast_def)

lemma np_bool_eq_scalar_1: "np_bool_eq_scalar bs 1 = bs"
  by (simp add: np_bool_eq_scalar_def map_idI)

lemma np_bool_eq_scalar_0: "np_bool_eq_scalar bs 0 = map Not bs"
  by (simp add: np_bool_eq_scalar_def)

lemma zip_map_prod: "zip (map f xs) (map g ys) = map (map_prod f g) (zip xs ys)"
  by (simp add: zip_map_map map_prod_def case_prod_unfold)

lemma zip_replicate_map1:
  "zip (replicate n (f a)) (map g ys) = map (map_prod f g) (zip (replicate n a) ys)"
  using zip_map_prod [of f "replicate n a" g ys] by simp

lemma zip_replicate_map2:
  "zip (map f xs) (replicate n (g b)) = map (map_prod f g) (zip xs (replicate n b))"
  using zip_map_prod [of f xs g "replicate n b"] by simp

lemma hd_map_single: "length zs = 1 \<Longrightarrow> hd (map h zs) = h (hd zs)"
  by (cases zs) simp_all

lemma np_broadcast_map:
  "np_broadcast (map f xs) (map g ys) =
     (case np_broadcast xs ys of Inl e \<Rightarrow> Inl e | Inr ps \<Rightarrow> Inr (map (map_prod f g) ps))"
proof -
  consider (same) "length xs = length ys"
    | (left) "length xs \<noteq> length ys" "length xs = 1"
    | (right) "length xs \<noteq> length ys" "length xs \<noteq> 1" "length ys = 1"
    | (bad) "length xs \<noteq> length ys" "length xs \<noteq> 1" "length ys \<noteq> 1"
    by blast
  then show ?thesis
  proof cases
    case same
    then show ?thesis by (simp add: np_broadcast_def zip_map_prod)
  next
    case left
    then show ?thesis
      by (simp only: np_broadcast_def length_map hd_map_single zip_replicate_map1, simp)
  next
    case right
    then show ?thesis
      by (simp only: np_broadcast_def length_map hd_map_single zip_replicate_map2, simp)
  next
    case bad
    then show ?thesis by (simp add: np_broadcast_def)
  qed
qed

lemma calculate_accuracy_pairs:
  "calculate_accuracy observed predicted =
     (case np_broadcast predicted observed of Inl e \<Rightarrow> Inl e
      | Inr ps \<Rightarrow> Inr (scores_of_pairs observed predicted ps))"
  by (simp add: calculate_accuracy_def scores_of_pairs_def np_logical_and_def np_equal_def
      np_bool_eq_scalar_1 np_bool_eq_scalar_0 np_eq_scalar_def np_broadcast_map Let_def
      map_prod_def case_prod_unfold comp_def
      split: sum.splits)

lemma zip_as_map_upt:
  "length xs = length ys \<Longrightarrow> zip xs ys = map (\<lambda>i. (xs ! i, ys ! i)) [0..<length ys]"
  by (rule nth_equalityI) simp_all

lemma np_sum_map: "np_sum (map f zs) = length (filter f zs)"
  by (induction zs) (simp_all add: np_sum_def)

lemma np_sum_zip_index:
  assumes "length xs = length ys"
  shows "np_sum (map f (zip xs ys)) = length (filter (\<lambda>i. f (xs ! i, ys ! i)) [0..<length ys])"
proof -
  have "np_sum (map f (zip xs ys)) = np_sum (map (\<lambda>i. f (xs ! i, ys ! i)) [0..<length ys])"
    by (simp add: zip_as_map_upt [OF assms] comp_def)
  then show ?thesis by (simp add: np_sum_map)
qed

lemma accuracy_scores_accuracy:
  "accuracy (accuracy_scores op on pp pn tp fp tn m) = np_mean m"
  by (simp add: accuracy_scores_def Let_def)

text \<open>
  C1. For equal-length, non-empty observed and predicted arrays with entries 0 or 1,
  calculate_accuracy returns, and the accuracy it reports is the proportion of
  positions at which predicted equals observed, a number between 0 and 1.
\<close>

theorem calculate_accuracy_accuracy_proportion:
  assumes "length observed = length predicted"
    and "observed \<noteq> []"
    and "set observed \<subseteq> {0, 1}"
    and "set predicted \<subseteq> {0, 1}"
  shows "\<exists>r. calculate_accuracy observed predicted = Inr r
           \<and> accuracy r = Fin (proportion_equal predicted observed)
           \<and> 0 \<le> proportion_equal predicted observed
           \<and> proportion_equal predicted observed \<le> 1"
proof -
  let ?n = "length observed"
  let ?k = "length (filter (\<lambda>i. predicted ! i = observed ! i) [0..<?n])"
  have len: "length predicted = length observed" using assms(1) by simp
  have ret: "calculate_accuracy observed predicted
               = Inr (scores_of_pairs observed predicted (zip predicted observed))"
    by (simp add: calculate_accuracy_pairs np_broadcast_same len)
  have n_pos: "0 < ?n" using assms(2) by simp
  have cnt: "np_sum (map (\<lambda>(p, ob). p = ob) (zip predicted observed)) = ?k"
    using np_sum_zip_index [OF len, of "\<lambda>(p, ob). p = ob"] by simp
  have acc: "accuracy (scores_of_pairs observed predicted (zip predicted observed))
               = Fin (proportion_equal predicted observed)"
    using n_pos
    by (simp add: scores_of_pairs_def accuracy_scores_accuracy np_mean_def cnt len
        np_int_div_def proportion_equal_def)
  have "?k \<le> length [0..<?n]" by (rule length_filter_le)
  then have k_le: "?k \<le> ?n" by simp
  have lo: "0 \<le> proportion_equal predicted observed"
    by (simp add: proportion_equal_def)
  have hi: "proportion_equal predicted observed \<le> 1"
    using k_le n_pos by (simp add: proportion_equal_def)
  show ?thesis using ret acc lo hi by blast
qed

theorem calculate_accuracy_accuracy_proportion_witness:
  "\<exists>r. calculate_accuracy [1, 0, 1, 1] [1, 1, 0, 1] = Inr r \<and> accuracy r = Fin (1 / 2)"
proof -
  have p: "proportion_equal [1, 1, 0, 1] [1, 0, 1, 1] = 1 / 2"
    by (simp add: proportion_equal_def upt_conv_Cons)
  show ?thesis
    using calculate_accuracy_accuracy_proportion [of "[1, 0, 1, 1]" "[1, 1, 0, 1]"]
    by (simp add: p)
qed

lemma np_sum_np_eq_scalar: "np_sum (np_eq_scalar xs c) = count_equal_to c xs"
  by (simp add: np_eq_scalar_def np_sum_map count_equal_to_def)

lemma scores_of_pairs_recall:
  "recall (scores_of_pairs observed predicted ps)
     = np_int_div (count_true_positives ps) (count_equal_to 1 observed)"
  by (simp add: scores_of_pairs_def accuracy_scores_def Let_def np_sum_map
      np_sum_np_eq_scalar count_true_positives_def)

lemma scores_of_pairs_positive_predictive_value:
  "positive_predictive_value (scores_of_pairs observed predicted ps)
     = np_int_div (count_true_positives ps) (count_equal_to 1 observed)"
  by (simp add: scores_of_pairs_def accuracy_scores_def Let_def np_sum_map
      np_sum_np_eq_scalar count_true_positives_def)

lemma scores_of_pairs_negative_predictive_value:
  "negative_predictive_value (scores_of_pairs observed predicted ps)
     = np_int_div (count_true_negatives ps) (count_equal_to 1 observed)"
  by (simp add: scores_of_pairs_def accuracy_scores_def Let_def np_sum_map
      np_sum_np_eq_scalar count_true_negatives_def)

lemma calculate_accuracy_returns:
  assumes "calculate_accuracy observed predicted = Inr r"
  obtains ps where "np_broadcast predicted observed = Inr ps"
    and "r = scores_of_pairs observed predicted ps"
  using assms by (auto simp: calculate_accuracy_pairs split: sum.splits)

text \<open>
  C6. Whenever calculate_accuracy returns, the positive predictive value it reports
  is the same value as the recall: both are the count of true positives divided by
  the count of observed positives (the docstring describes it as the chance of a
  true positive given a positive prediction).
\<close>

theorem positive_predictive_value_equals_recall:
  assumes "calculate_accuracy observed predicted = Inr r"
  shows "positive_predictive_value r = recall r
         \<and> (\<exists>ps. np_broadcast predicted observed = Inr ps
               \<and> positive_predictive_value r
                   = np_int_div (count_true_positives ps) (count_equal_to 1 observed)
               \<and> recall r
                   = np_int_div (count_true_positives ps) (count_equal_to 1 observed))"
proof -
  obtain ps where ps: "np_broadcast predicted observed = Inr ps"
    and r: "r = scores_of_pairs observed predicted ps"
    using assms by (rule calculate_accuracy_returns)
  show ?thesis
    using ps
    by (simp add: r scores_of_pairs_recall scores_of_pairs_positive_predictive_value)
qed

lemma calculate_accuracy_example_110_100:
  "calculate_accuracy [1, 1, 0] [1, 0, 0]
     = Inr (scores_of_pairs [1, 1, 0] [1, 0, 0] [(1, 1), (0, 1), (0, 0)])"
  by (simp add: calculate_accuracy_pairs np_broadcast_def)

theorem positive_predictive_value_equals_recall_witness:
  "positive_predictive_value (scores_of_pairs [1, 1, 0] [1, 0, 0] [(1, 1), (0, 1), (0, 0)])
     = recall (scores_of_pairs [1, 1, 0] [1, 0, 0] [(1, 1), (0, 1), (0, 0)])
   \<and> recall (scores_of_pairs [1, 1, 0] [1, 0, 0] [(1, 1), (0, 1), (0, 0)]) = Fin (1 / 2)"
proof -
  have "recall (scores_of_pairs [1, 1, 0] [1, 0, 0] [(1, 1), (0, 1), (0, 0)]) = Fin (1 / 2)"
    by (simp add: scores_of_pairs_recall count_true_positives_def count_equal_to_def
        np_int_div_def)
  then show ?thesis
    using positive_predictive_value_equals_recall [OF calculate_accuracy_example_110_100]
    by simp
qed

text \<open>
  The docstring's reading of the positive predictive value (true positives over
  predicted positives) gives 1 on this input, where the function reports 1/2.
\<close>

lemma positive_predictive_value_not_as_documented:
  "positive_predictive_value (scores_of_pairs [1, 1, 0] [1, 0, 0] [(1, 1), (0, 1), (0, 0)])
     = Fin (1 / 2)
   \<and> np_int_div (count_true_positives [(1, 1), (0, 1), (0, 0)]) (count_equal_to 1 [1, 0, 0])
     = Fin 1"
  by (simp add: scores_of_pairs_positive_predictive_value count_true_positives_def
      count_equal_to_def np_int_div_def)

text \<open>
  C7. Whenever calculate_accuracy returns, the negative predictive value it reports
  is the count of true negatives divided by the count of observed positives; and on
  an input with an observed positive the reported value can exceed 1.
\<close>

theorem negative_predictive_value_over_observed_positives:
  "(\<forall>observed predicted r. calculate_accuracy observed predicted = Inr r \<longrightarrow>
      (\<exists>ps. np_broadcast predicted observed = Inr ps
         \<and> negative_predictive_value r
             = np_int_div (count_true_negatives ps) (count_equal_to 1 observed)))
   \<and> (\<exists>observed predicted r v. calculate_accuracy observed predicted = Inr r
         \<and> 0 < count_equal_to 1 observed
         \<and> negative_predictive_value r = Fin v \<and> 1 < v)"
proof (intro conjI allI impI)
  fix observed predicted r
  assume ret: "calculate_accuracy observed predicted = Inr r"
  obtain ps where ps: "np_broadcast predicted observed = Inr ps"
    and r: "r = scores_of_pairs observed predicted ps"
    using ret by (rule calculate_accuracy_returns)
  show "\<exists>ps. np_broadcast predicted observed = Inr ps
         \<and> negative_predictive_value r
             = np_int_div (count_true_negatives ps) (count_equal_to 1 observed)"
    using ps by (simp add: r scores_of_pairs_negative_predictive_value)
next
  have ret: "calculate_accuracy [1, 0, 0] [0, 0, 0]
               = Inr (scores_of_pairs [1, 0, 0] [0, 0, 0] [(0, 1), (0, 0), (0, 0)])"
    by (simp add: calculate_accuracy_pairs np_broadcast_def)
  have npv: "negative_predictive_value
               (scores_of_pairs [1, 0, 0] [0, 0, 0] [(0, 1), (0, 0), (0, 0)]) = Fin 2"
    by (simp add: scores_of_pairs_negative_predictive_value count_true_negatives_def
        count_equal_to_def np_int_div_def)
  have pos: "0 < count_equal_to 1 [1, 0, 0]"
    by (simp add: count_equal_to_def)
  have "(1::real) < 2" by simp
  with ret npv pos
  show "\<exists>observed predicted r v. calculate_accuracy observed predicted = Inr r
         \<and> 0 < count_equal_to 1 observed
         \<and> negative_predictive_value r = Fin v \<and> 1 < v"
    by blast
qed

lemma calculate_accuracy_example_100_000:
  "calculate_accuracy [1, 0, 0] [0, 0, 0]
     = Inr (scores_of_pairs [1, 0, 0] [0, 0, 0] [(0, 1), (0, 0), (0, 0)])"
  by (simp add: calculate_accuracy_pairs np_broadcast_def)

theorem negative_predictive_value_over_observed_positives_witness:
  "negative_predictive_value (scores_of_pairs [1, 0, 0] [0, 0, 0] [(0, 1), (0, 0), (0, 0)])
     = Fin 2"
proof -
  from negative_predictive_value_over_observed_positives
  have "\<exists>ps. np_broadcast [0, 0, 0] [1, 0, 0] = Inr ps
          \<and> negative_predictive_value
               (scores_of_pairs [1, 0, 0] [0, 0, 0] [(0, 1), (0, 0), (0, 0)])
             = np_int_div (count_true_negatives ps) (count_equal_to 1 [1, 0, 0])"
    using calculate_accuracy_example_100_000 by blast
  then show ?thesis
    by (simp add: np_broadcast_def count_true_negatives_def count_equal_to_def np_int_div_def)
qed

lemma scores_of_pairs_specificity:
  "specificity (scores_of_pairs observed predicted ps)
     = np_int_div (count_true_negatives ps) (count_equal_to 0 observed)"
  by (simp add: scores_of_pairs_def accuracy_scores_def Let_def np_sum_map
      np_sum_np_eq_scalar count_true_negatives_def)

lemma scores_of_pairs_negative_likelihood:
  "negative_likelihood (scores_of_pairs observed predicted ps)
     = np_div (np_sub (Fin 1) (recall (scores_of_pairs observed predicted ps)))
         (specificity (scores_of_pairs observed predicted ps))"
  by (simp add: scores_of_pairs_def accuracy_scores_def Let_def)

lemma scores_of_pairs_precision:
  "precision (scores_of_pairs observed predicted ps)
     = np_int_div (count_true_positives ps)
         (length (filter (\<lambda>(p, ob). p = 1) ps))"
proof -
  have "length (filter (\<lambda>(p, ob). p = 1 \<and> ob = 1) ps)
          + length (filter (\<lambda>(p, ob). p = 1 \<and> ob \<noteq> 1) ps)
        = length (filter (\<lambda>(p, ob). p = (1::real)) ps)" for ps :: "(real \<times> real) list"
    by (induction ps) auto
  then show ?thesis
    by (simp add: scores_of_pairs_def accuracy_scores_def Let_def np_sum_map
        count_true_positives_def)
qed

lemma np_int_div_zero_zero: "np_int_div 0 0 = NaN"
  by (simp add: np_int_div_def)

lemma np_div_NaN_right: "np_div x NaN = NaN"
  by (cases x) simp_all

lemma count_pairs_zero:
  assumes "\<And>p ob. (p, ob) \<in> set ps \<Longrightarrow> \<not> P p ob"
  shows "length (filter (\<lambda>(p, ob). P p ob) ps) = 0"
  using assms by (auto simp: filter_empty_conv)

text \<open>
  C4, as the code has it. On arrays of one length calculate_accuracy always returns
  its dictionary. With no observed negative the specificity and the negative
  likelihood are \<open>nan\<close>; with no observed positive the recall is \<open>nan\<close>; with no
  predicted positive the precision is \<open>nan\<close>. No error is raised.
\<close>

theorem degenerate_metrics_are_nan:
  assumes "length observed = length predicted"
  shows "\<exists>r. calculate_accuracy observed predicted = Inr r
           \<and> (0 \<notin> set observed \<longrightarrow> specificity r = NaN \<and> negative_likelihood r = NaN)
           \<and> (1 \<notin> set observed \<longrightarrow> recall r = NaN)
           \<and> (1 \<notin> set predicted \<longrightarrow> precision r = NaN)"
proof -
  let ?ps = "zip predicted observed"
  let ?r = "scores_of_pairs observed predicted ?ps"
  have len: "length predicted = length observed" using assms by simp
  have ret: "calculate_accuracy observed predicted = Inr ?r"
    by (simp add: calculate_accuracy_pairs np_broadcast_same len)
  have spec: "specificity ?r = NaN" if "0 \<notin> set observed"
  proof -
    have "count_true_negatives ?ps = 0"
      unfolding count_true_negatives_def
      by (rule count_pairs_zero) (use that in \<open>auto dest: set_zip_rightD\<close>)
    moreover have "count_equal_to 0 observed = 0"
      using that by (auto simp: count_equal_to_def filter_empty_conv)
    ultimately show ?thesis
      by (simp add: scores_of_pairs_specificity np_int_div_zero_zero)
  qed
  have nl: "negative_likelihood ?r = NaN" if "0 \<notin> set observed"
    using spec [OF that] by (simp add: scores_of_pairs_negative_likelihood np_div_NaN_right)
  have rec: "recall ?r = NaN" if "1 \<notin> set observed"
  proof -
    have "count_true_positives ?ps = 0"
      unfolding count_true_positives_def
      by (rule count_pairs_zero) (use that in \<open>auto dest: set_zip_rightD\<close>)
    moreover have "count_equal_to 1 observed = 0"
      using that by (auto simp: count_equal_to_def filter_empty_conv)
    ultimately show ?thesis
      by (simp add: scores_of_pairs_recall np_int_div_zero_zero)
  qed
  have prec: "precision ?r = NaN" if "1 \<notin> set predicted"
  proof -
    have "count_true_positives ?ps = 0"
      unfolding count_true_positives_def
      by (rule count_pairs_zero) (use that in \<open>auto dest: set_zip_leftD\<close>)
    moreover have "length (filter (\<lambda>(p, ob). p = 1) ?ps) = 0"
      using that by (auto simp: filter_empty_conv dest: set_zip_leftD)
    ultimately show ?thesis
      by (simp add: scores_of_pairs_precision np_int_div_zero_zero)
  qed
  show ?thesis using ret spec nl rec prec by blast
qed

theorem degenerate_metrics_are_nan_witness:
  "\<exists>r. calculate_accuracy [1, 1] [1, 0] = Inr r
         \<and> specificity r = NaN \<and> negative_likelihood r = NaN"
  using degenerate_metrics_are_nan [of "[1, 1]" "[1, 0]"] by simp

text \<open>
  C4, as stated, fails: with no negative case among the observed values the function
  returns normally, and the specificity in the returned dictionary is \<open>nan\<close>.
\<close>

theorem no_negatives_returns_nan_counterexample:
  "map_sum id specificity (calculate_accuracy [1, 1] [1, 0]) = Inr NaN"
  by (simp add: calculate_accuracy_pairs np_broadcast_def scores_of_pairs_specificity
      count_true_negatives_def count_equal_to_def np_int_div_def)

section \<open>Properties of float64 rounding\<close>

lemma bit_length_nonneg: "0 \<le> bit_length n"
  by (induction n rule: bit_length.induct) (subst bit_length.simps, simp)

lemma bit_length_pos: "0 < n \<Longrightarrow> 1 \<le> bit_length n"
  using bit_length_nonneg [of "n div 2"] by (subst bit_length.simps) simp

lemma bit_length_bounds:
  "0 < n \<Longrightarrow> 2 ^ nat (bit_length n - 1) \<le> n \<and> n < 2 ^ nat (bit_length n)"
proof (induction n rule: bit_length.induct)
  case (1 n)
  have bl: "bit_length n = bit_length (n div 2) + 1"
    using "1.prems" by (subst bit_length.simps) simp
  show ?case
  proof (cases "n div 2 = 0")
    case True
    then have "n = 1" using "1.prems" by presburger
    moreover have "bit_length 0 = 0" by (subst bit_length.simps) simp
    ultimately show ?thesis using bl True by simp
  next
    case False
    then have h: "0 < n div 2" using "1.prems" by presburger
    have nle: "\<not> n \<le> 0" using "1.prems" by simp
    from "1.IH" [OF nle h]
    have lo: "2 ^ nat (bit_length (n div 2) - 1) \<le> n div 2"
      and hi: "n div 2 < 2 ^ nat (bit_length (n div 2))"
      by simp_all
    have b1: "1 \<le> bit_length (n div 2)" by (rule bit_length_pos [OF h])
    have e: "nat (bit_length (n div 2)) = Suc (nat (bit_length (n div 2) - 1))"
      using b1 by simp
    have e2: "nat (bit_length (n div 2) + 1) = Suc (nat (bit_length (n div 2)))"
      using b1 by simp
    have "(2::int) ^ nat (bit_length (n div 2)) = 2 * 2 ^ nat (bit_length (n div 2) - 1)"
      by (subst e) simp
    then have "(2::int) ^ nat (bit_length (n div 2)) \<le> 2 * (n div 2)"
      using lo by simp
    then have c1: "(2::int) ^ nat (bit_length n - 1) \<le> n"
      by (simp add: bl)
    have "n div 2 + 1 \<le> 2 ^ nat (bit_length (n div 2))"
      using hi by simp
    then have "n < 2 * 2 ^ nat (bit_length (n div 2))"
      by presburger
    then have c2: "n < 2 ^ nat (bit_length n)"
      by (simp add: bl e2)
    show ?thesis using c1 c2 by simp
  qed
qed

lemma pow2_powi: "pow2 k = 2 powi k"
  by (simp add: pow2_def power_int_def power_one_over inverse_eq_divide)

lemma pow2_pos: "0 < pow2 k"
  by (simp add: pow2_powi)

lemma pow2_diff: "pow2 (a - b) = pow2 a / pow2 b"
  by (simp add: pow2_powi power_int_diff)

lemma pow2_of_nat: "0 \<le> k \<Longrightarrow> pow2 k = 2 ^ nat k"
  by (simp add: pow2_def)

lemma floor_log2_lower:
  assumes "0 < x"
  shows "pow2 (floor_log2 x) \<le> x"
proof -
  obtain p q where pq: "quotient_of x = (p, q)" by (cases "quotient_of x")
  have q: "0 < q" using pq by (rule quotient_of_denom_pos)
  have x: "x = of_int p / of_int q" using pq by (rule quotient_of_div)
  have p: "0 < p"
    using assms q unfolding x by (simp add: zero_less_divide_iff)
  let ?k = "bit_length p - bit_length q"
  show ?thesis
  proof (cases "pow2 ?k \<le> x")
    case True
    then show ?thesis by (simp add: floor_log2_def pq Let_def)
  next
    case False
    then have fl: "floor_log2 x = ?k - 1" by (simp add: floor_log2_def pq Let_def)
    have lo: "(2::int) ^ nat (bit_length p - 1) \<le> p"
      using bit_length_bounds [OF p] by simp
    have hi: "q < 2 ^ nat (bit_length q)"
      using bit_length_bounds [OF q] by simp
    have lo': "(2::rat) ^ nat (bit_length p - 1) \<le> of_int p"
    proof -
      have "(of_int (2 ^ nat (bit_length p - 1)) :: rat) \<le> of_int p"
        using lo by (simp only: of_int_le_iff)
      then show ?thesis by simp
    qed
    have hi': "(of_int q :: rat) \<le> 2 ^ nat (bit_length q)"
    proof -
      have "(of_int q :: rat) \<le> of_int (2 ^ nat (bit_length q))"
        using hi by (simp only: of_int_le_iff)
      then show ?thesis by simp
    qed
    have qpos: "(0::rat) < of_int q" using q by simp
    have "pow2 (?k - 1) = pow2 (bit_length p - 1) / pow2 (bit_length q)"
      using pow2_diff [of "bit_length p - 1" "bit_length q"] by (simp add: algebra_simps)
    also have "\<dots> = 2 ^ nat (bit_length p - 1) / 2 ^ nat (bit_length q)"
      using bit_length_pos [OF p] bit_length_nonneg [of q] by (simp add: pow2_of_nat)
    also have "\<dots> \<le> of_int p / of_int q"
      using lo' hi' qpos p by (intro frac_le) simp_all
    finally have "pow2 (?k - 1) \<le> of_int p / of_int q" .
    then have "pow2 (?k - 1) \<le> x" by (simp only: x)
    then show ?thesis by (simp only: fl)
  qed
qed

lemma round_half_even_error: "\<bar>of_int (round_half_even y) - y\<bar> \<le> 1 / 2"
proof -
  have "of_int \<lfloor>y\<rfloor> \<le> y" "y < of_int \<lfloor>y\<rfloor> + 1" by linarith+
  then show ?thesis
    by (auto simp: round_half_even_def Let_def)
qed

lemma round64_error: "\<bar>round64 x - x\<bar> \<le> \<bar>x\<bar> / 2 ^ 53"
proof (cases "x = 0")
  case True
  then show ?thesis by (simp add: round64_def)
next
  case False
  let ?a = "\<bar>x\<bar>"
  let ?e = "floor_log2 ?a - 52"
  let ?s = "pow2 ?e"
  let ?m = "round_half_even (?a / ?s)"
  have a: "0 < ?a" using False by simp
  have s: "0 < ?s" by (rule pow2_pos)
  have r: "round64 x = sgn x * of_int ?m * ?s"
    using False by (simp add: round64_def Let_def)
  have "\<bar>of_int ?m - ?a / ?s\<bar> \<le> 1 / 2" by (rule round_half_even_error)
  then have "\<bar>of_int ?m - ?a / ?s\<bar> * ?s \<le> 1 / 2 * ?s"
    using s by (intro mult_right_mono) simp_all
  moreover have "\<bar>of_int ?m - ?a / ?s\<bar> * ?s = \<bar>of_int ?m * ?s - ?a\<bar>"
  proof -
    have "\<bar>of_int ?m - ?a / ?s\<bar> * ?s = \<bar>(of_int ?m - ?a / ?s) * ?s\<bar>"
      using s by (simp add: abs_mult)
    also have "(of_int ?m - ?a / ?s) * ?s = of_int ?m * ?s - ?a"
      using s by (simp add: algebra_simps)
    finally show ?thesis .
  qed
  ultimately have err: "\<bar>of_int ?m * ?s - ?a\<bar> \<le> ?s / 2" by simp
  have sx: "sgn x * ?a = x" by (rule mult_sgn_abs)
  have "sgn x * (of_int ?m * ?s - ?a) = sgn x * of_int ?m * ?s - sgn x * ?a"
    by (simp add: right_diff_distrib mult.assoc)
  then have "round64 x - x = sgn x * (of_int ?m * ?s - ?a)"
    unfolding r sx by simp
  then have "\<bar>round64 x - x\<bar> = \<bar>of_int ?m * ?s - ?a\<bar>"
    using False by (simp add: abs_mult abs_sgn_eq)
  also have "\<dots> \<le> ?s / 2" by (rule err)
  also have "?s / 2 = pow2 (floor_log2 ?a) / 2 ^ 53"
    using pow2_diff [of "floor_log2 ?a" 52] by (simp add: pow2_of_nat)
  also have "\<dots> \<le> ?a / 2 ^ 53"
    using floor_log2_lower [OF a] by (simp add: divide_right_mono)
  finally show ?thesis .
qed

lemma round64_zero: "round64 0 = 0"
  by (simp add: round64_def)

lemma round64_hundredth: "round64 (1 / 100) = 5764607523034235 / 576460752303423488"
  by code_simp

section \<open>Properties of the ROC sweep\<close>

lemma thresholds_arange_value:
  "thresholds_arange
     = Inr (map (\<lambda>i. float64_add 0 (float64_mul (of_nat i) (round64 (1 / 100)))) [0..<101])"
proof -
  have step: "round64 (1 / 100) \<noteq> 0"
    by (simp add: round64_hundredth)
  have len: "\<lceil>float64_div (float64_sub (round64 (101 / 100)) 0) (round64 (1 / 100))\<rceil> = 101"
    by code_simp
  have second: "float64_add 0 (round64 (1 / 100)) = round64 (1 / 100)"
    by code_simp
  have delta: "float64_sub (round64 (1 / 100)) 0 = round64 (1 / 100)"
    by code_simp
  have one: "float64_add 0 (float64_mul 1 (round64 (1 / 100))) = round64 (1 / 100)"
    by code_simp
  have zero: "float64_add 0 (float64_mul 0 (round64 (1 / 100))) = 0"
    by (simp add: float64_add_def float64_mul_def round64_zero)
  have entries:
    "map (\<lambda>i. if i = 0 then 0 else if i = 1 then round64 (1 / 100)
               else float64_add 0 (float64_mul (of_nat i) (round64 (1 / 100)))) [0..<101]
       = map (\<lambda>i. float64_add 0 (float64_mul (of_nat i) (round64 (1 / 100)))) [0..<101]"
    by (rule map_cong) (auto simp: zero one)
  have "np_arange 0 (round64 (101 / 100)) (round64 (1 / 100))
          = Inr (map (\<lambda>i. if i = 0 then 0 else if i = 1 then round64 (1 / 100)
                           else float64_add 0 (float64_mul (of_nat i) (round64 (1 / 100))))
                   [0..<101])"
    unfolding np_arange_def Let_def len second delta using step by simp
  then show ?thesis
    by (simp only: thresholds_arange_def entries)
qed

text \<open>
  The length follows the float64 quotient: \<^verbatim>\<open>np.arange(1, 1.3, 0.1)\<close> has four
  entries, since \<open>(1.3 - 1) / 0.1\<close> is 3.0000000000000004.
\<close>

lemma np_arange_length_example:
  "map_sum id length (np_arange 1 (round64 (13 / 10)) (round64 (1 / 10))) = Inr 4"
  by code_simp

lemma length_thresholds: "length thresholds = 101"
  by (simp add: thresholds_def thresholds_arange_value)

lemma nth_thresholds:
  "i < 101 \<Longrightarrow>
     thresholds ! i
       = real_of_rat (float64_add 0 (float64_mul (of_nat i) (round64 (1 / 100))))"
  by (simp add: thresholds_def thresholds_arange_value)

text \<open>
  Each threshold lies within the relative distance \<open>2^-51\<close> of \<open>i/100\<close>: three
  roundings, of the literal 0.01, of the product and of the sum.
\<close>

lemma threshold_bounds:
  fixes n :: rat
  assumes "0 \<le> n"
  defines "t \<equiv> float64_add 0 (float64_mul n (round64 (1 / 100)))"
  shows "n / 100 * (1 - 1 / 2 ^ 51) \<le> t" and "t \<le> n / 100 * (1 + 1 / 2 ^ 51)"
proof -
  let ?c = "5764607523034235 / 576460752303423488 :: rat"
  let ?y = "round64 (n * ?c)"
  have p: "(2::rat) ^ 53 = 9007199254740992" by simp
  have t: "t = round64 ?y"
    by (simp add: t_def float64_add_def float64_mul_def round64_hundredth)
  have "\<bar>?y - n * ?c\<bar> \<le> \<bar>n * ?c\<bar> / 2 ^ 53" by (rule round64_error)
  moreover have "\<bar>n * ?c\<bar> = n * ?c" using assms(1) by simp
  ultimately have y: "\<bar>?y - n * ?c\<bar> \<le> n * ?c / 9007199254740992"
    by (simp only: p)
  have y_lo: "n * ?c - n * ?c / 9007199254740992 \<le> ?y"
    and y_hi: "?y \<le> n * ?c + n * ?c / 9007199254740992"
    using y by linarith+
  have y0: "0 \<le> ?y" using y_lo assms(1) by linarith
  have "\<bar>round64 ?y - ?y\<bar> \<le> \<bar>?y\<bar> / 2 ^ 53" by (rule round64_error)
  then have ty: "\<bar>t - ?y\<bar> \<le> ?y / 9007199254740992"
    using y0 by (simp only: t abs_of_nonneg p)
  have t_lo: "?y - ?y / 9007199254740992 \<le> t"
    and t_hi: "t \<le> ?y + ?y / 9007199254740992"
    using ty by linarith+
  have lo: "n / 100 * (1 - 1 / 2 ^ 51) = n * (2251799813685247 / 225179981368524800)"
    by simp
  have hi: "n / 100 * (1 + 1 / 2 ^ 51) = n * (2251799813685249 / 225179981368524800)"
    by simp
  show "n / 100 * (1 - 1 / 2 ^ 51) \<le> t"
    unfolding lo using y_lo t_lo assms(1) by linarith
  show "t \<le> n / 100 * (1 + 1 / 2 ^ 51)"
    unfolding hi using y_hi t_hi assms(1) by linarith
qed

lemma thresholds_ascending: "sorted_wrt (<) thresholds"
proof -
  have "thresholds ! i < thresholds ! j" if "i < j" and "j < 101" for i j
  proof -
    let ?t = "\<lambda>k::nat. float64_add 0 (float64_mul (of_nat k) (round64 (1 / 100)))"
    have hi: "?t i \<le> of_nat i / 100 * (1 + 1 / 2 ^ 51)"
      by (rule threshold_bounds) simp
    have lo: "of_nat j / 100 * (1 - 1 / 2 ^ 51) \<le> ?t j"
      by (rule threshold_bounds) simp
    have ij: "(of_nat i :: rat) + 1 \<le> of_nat j" "(of_nat j :: rat) \<le> 100" "(0 :: rat) \<le> of_nat i"
      using that by (simp_all flip: of_nat_Suc add: Suc_le_eq)
    have "?t i < ?t j" using hi lo ij by (simp add: algebra_simps)
    then have "real_of_rat (?t i) < real_of_rat (?t j)" by (simp only: of_rat_less)
    then show ?thesis using that by (simp add: nth_thresholds)
  qed
  then show ?thesis
    by (simp add: sorted_wrt_iff_nth_less length_thresholds)
qed

lemma thresholds_close:
  assumes "i < 101"
  shows "\<bar>thresholds ! i - real i / 100\<bar> \<le> 1 / 2 ^ 51"
proof -
  let ?t = "float64_add 0 (float64_mul (of_nat i) (round64 (1 / 100)))"
  have lo: "of_nat i / 100 * (1 - 1 / 2 ^ 51) \<le> ?t"
    and hi: "?t \<le> of_nat i / 100 * (1 + 1 / 2 ^ 51)"
    by (rule threshold_bounds, simp)+
  have i: "(of_nat i :: rat) \<le> 100" "(0 :: rat) \<le> of_nat i" using assms by simp_all
  have "of_nat i / 100 - 1 / 2 ^ 51 \<le> ?t" "?t \<le> of_nat i / 100 + 1 / 2 ^ 51"
    using lo hi i by (simp_all add: algebra_simps)
  then have "real_of_rat (of_nat i / 100 - 1 / 2 ^ 51) \<le> real_of_rat ?t"
    "real_of_rat ?t \<le> real_of_rat (of_nat i / 100 + 1 / 2 ^ 51)"
    by (simp_all only: of_rat_less_eq)
  then have "real i / 100 - 1 / 2 ^ 51 \<le> real_of_rat ?t"
    "real_of_rat ?t \<le> real i / 100 + 1 / 2 ^ 51"
    by (simp_all add: of_rat_diff of_rat_add of_rat_divide of_rat_power)
  then have "\<bar>real_of_rat ?t - real i / 100\<bar> \<le> 1 / 2 ^ 51"
    by linarith
  then show ?thesis
    using assms by (simp only: nth_thresholds)
qed

lemma scores_of_pairs_true_positive_rate:
  "true_positive_rate (scores_of_pairs observed predicted ps)
     = np_int_div (count_true_positives ps) (count_equal_to 1 observed)"
  by (simp add: scores_of_pairs_def accuracy_scores_def Let_def np_sum_map
      np_sum_np_eq_scalar count_true_positives_def)

lemma scores_of_pairs_false_positive_rate:
  "false_positive_rate (scores_of_pairs observed predicted ps)
     = np_sub (Fin 1) (np_int_div (count_true_negatives ps) (count_equal_to 0 observed))"
  by (simp add: scores_of_pairs_def accuracy_scores_def Let_def np_sum_map
      np_sum_np_eq_scalar count_true_negatives_def)

lemma length_predicted_survived:
  "length (np_bool_values (np_greater_equal probability_survival cutoff))
     = length probability_survival"
  by (simp add: np_bool_values_def np_greater_equal_def)

lemma nth_predicted_survived:
  "i < length probability_survival \<Longrightarrow>
     np_bool_values (np_greater_equal probability_survival cutoff) ! i
       = (if cutoff \<le> probability_survival ! i then 1 else 0)"
  by (simp add: np_bool_values_def np_greater_equal_def)

lemma length_filter_cong_upt:
  assumes "\<And>i. i < n \<Longrightarrow> P i = Q i"
  shows "length (filter P [0..<n]) = length (filter Q [0..<n])"
proof -
  have "filter P [0..<n] = filter Q [0..<n]"
    by (rule filter_cong) (use assms in auto)
  then show ?thesis by simp
qed

lemma calculate_accuracy_at_cutoff:
  assumes "length y_test = length probability_survival"
  shows "\<exists>r. calculate_accuracy y_test
                (np_bool_values (np_greater_equal probability_survival cutoff)) = Inr r
           \<and> true_positive_rate r
               = classifier_true_positive_rate y_test probability_survival cutoff
           \<and> false_positive_rate r
               = classifier_false_positive_rate y_test probability_survival cutoff"
proof -
  let ?pred = "np_bool_values (np_greater_equal probability_survival cutoff)"
  let ?ps = "zip ?pred y_test"
  let ?r = "scores_of_pairs y_test ?pred ?ps"
  have len: "length ?pred = length y_test"
    using assms by (simp add: length_predicted_survived)
  have ret: "calculate_accuracy y_test ?pred = Inr ?r"
    by (simp add: calculate_accuracy_pairs np_broadcast_same len)
  have tp: "count_true_positives ?ps
              = length (filter (\<lambda>i. cutoff \<le> probability_survival ! i \<and> y_test ! i = 1)
                  [0..<length y_test])"
  proof -
    have "count_true_positives ?ps
            = length (filter (\<lambda>i. ?pred ! i = 1 \<and> y_test ! i = 1) [0..<length y_test])"
      unfolding count_true_positives_def
      using np_sum_zip_index [OF len, of "\<lambda>(p, ob). p = 1 \<and> ob = 1"]
      by (simp add: np_sum_map)
    also have "\<dots> = length (filter (\<lambda>i. cutoff \<le> probability_survival ! i \<and> y_test ! i = 1)
                  [0..<length y_test])"
      by (rule length_filter_cong_upt) (use assms in \<open>simp add: nth_predicted_survived\<close>)
    finally show ?thesis .
  qed
  have tn: "count_true_negatives ?ps
              = length (filter (\<lambda>i. \<not> cutoff \<le> probability_survival ! i \<and> y_test ! i = 0)
                  [0..<length y_test])"
  proof -
    have "count_true_negatives ?ps
            = length (filter (\<lambda>i. ?pred ! i = 0 \<and> y_test ! i = 0) [0..<length y_test])"
      unfolding count_true_negatives_def
      using np_sum_zip_index [OF len, of "\<lambda>(p, ob). p = 0 \<and> ob = 0"]
      by (simp add: np_sum_map)
    also have "\<dots> = length (filter (\<lambda>i. \<not> cutoff \<le> probability_survival ! i \<and> y_test ! i = 0)
                  [0..<length y_test])"
      by (rule length_filter_cong_upt) (use assms in \<open>simp add: nth_predicted_survived\<close>)
    finally show ?thesis .
  qed
  have "true_positive_rate ?r = classifier_true_positive_rate y_test probability_survival cutoff"
    by (simp only: scores_of_pairs_true_positive_rate classifier_true_positive_rate_def tp)
  moreover
  have "false_positive_rate ?r = classifier_false_positive_rate y_test probability_survival cutoff"
    by (simp only: scores_of_pairs_false_positive_rate classifier_false_positive_rate_def tn)
  ultimately show ?thesis using ret by blast
qed

lemma roc_loop_result:
  assumes "length y_test = length probability_survival"
  shows "roc_loop y_test probability_survival cutoffs (curve_fpr, curve_tpr)
           = Inr (curve_fpr @ map (classifier_false_positive_rate y_test probability_survival) cutoffs,
                  curve_tpr @ map (classifier_true_positive_rate y_test probability_survival) cutoffs)"
proof (induction cutoffs arbitrary: curve_fpr curve_tpr)
  case Nil
  show ?case by simp
next
  case (Cons cutoff rest)
  obtain r where r: "calculate_accuracy y_test
                (np_bool_values (np_greater_equal probability_survival cutoff)) = Inr r"
    and tpr: "true_positive_rate r
               = classifier_true_positive_rate y_test probability_survival cutoff"
    and fpr: "false_positive_rate r
               = classifier_false_positive_rate y_test probability_survival cutoff"
    using calculate_accuracy_at_cutoff [OF assms] by blast
  show ?case
    by (simp add: r tpr fpr Cons.IH)
qed

lemma roc_sweep_result:
  assumes "length y_test = length probability_survival"
  shows "roc_sweep y_test probability_survival
           = Inr (map (classifier_false_positive_rate y_test probability_survival) thresholds,
                  map (classifier_true_positive_rate y_test probability_survival) thresholds)"
  by (simp add: roc_sweep_def thresholds_def thresholds_arange_value roc_loop_result [OF assms])

text \<open>
  C2, as the code has it. The sweep runs over the 101 thresholds of
  \<^verbatim>\<open>np.arange(0, 1.01, 0.01)\<close> in ascending order; the \<open>i\<close>-th is the float64 result
  of \<open>0 + i * 0.01\<close>, which lies within \<open>2^-51\<close> of \<open>i/100\<close>. For the \<open>i\<close>-th
  threshold it appends the true-positive rate and the false-positive rate of the
  classifier that predicts survival exactly when the predicted probability reaches
  that threshold, so both curves end with 101 entries in threshold order. (\<open>y_test\<close>
  and the probabilities come from one test set and have one length.)
\<close>

theorem roc_sweep_curves:
  assumes "length y_test = length probability_survival"
  shows "length thresholds = 101
         \<and> (\<forall>i < 101. thresholds ! i
               = real_of_rat (float64_add 0 (float64_mul (of_nat i) (round64 (1 / 100)))))
         \<and> (\<forall>i < 101. \<bar>thresholds ! i - real i / 100\<bar> \<le> 1 / 2 ^ 51)
         \<and> sorted_wrt (<) thresholds
         \<and> (\<exists>curve_fpr curve_tpr.
               roc_sweep y_test probability_survival = Inr (curve_fpr, curve_tpr)
               \<and> length curve_fpr = 101 \<and> length curve_tpr = 101
               \<and> (\<forall>i < 101.
                     curve_tpr ! i = classifier_true_positive_rate y_test
                                       probability_survival (thresholds ! i)
                   \<and> curve_fpr ! i = classifier_false_positive_rate y_test
                                       probability_survival (thresholds ! i)))"
proof -
  let ?fpr = "map (classifier_false_positive_rate y_test probability_survival) thresholds"
  let ?tpr = "map (classifier_true_positive_rate y_test probability_survival) thresholds"
  have curves: "roc_sweep y_test probability_survival = Inr (?fpr, ?tpr)
                 \<and> length ?fpr = 101 \<and> length ?tpr = 101
                 \<and> (\<forall>i < 101.
                       ?tpr ! i = classifier_true_positive_rate y_test
                                    probability_survival (thresholds ! i)
                     \<and> ?fpr ! i = classifier_false_positive_rate y_test
                                    probability_survival (thresholds ! i))"
    using roc_sweep_result [OF assms] by (simp add: length_thresholds)
  have entries: "\<forall>i < 101. thresholds ! i
                  = real_of_rat (float64_add 0 (float64_mul (of_nat i) (round64 (1 / 100))))"
    using nth_thresholds by blast
  have close: "\<forall>i < 101. \<bar>thresholds ! i - real i / 100\<bar> \<le> 1 / 2 ^ 51"
    using thresholds_close by blast
  from curves have "\<exists>curve_fpr curve_tpr.
               roc_sweep y_test probability_survival = Inr (curve_fpr, curve_tpr)
               \<and> length curve_fpr = 101 \<and> length curve_tpr = 101
               \<and> (\<forall>i < 101.
                     curve_tpr ! i = classifier_true_positive_rate y_test
                                       probability_survival (thresholds ! i)
                   \<and> curve_fpr ! i = classifier_false_positive_rate y_test
                                       probability_survival (thresholds ! i))"
    by blast
  with length_thresholds entries close thresholds_ascending show ?thesis
    by blast
qed

lemma threshold_50: "thresholds ! 50 = 1 / 2"
proof -
  have e: "float64_add 0 (float64_mul 50 (round64 (1 / 100))) = 1 / 2"
    by code_simp
  have n: "(of_nat 50 :: rat) = 50" by simp
  have "thresholds ! 50
          = real_of_rat (float64_add 0 (float64_mul (of_nat 50) (round64 (1 / 100))))"
    by (rule nth_thresholds) simp
  then have "thresholds ! 50 = real_of_rat (1 / 2)"
    by (simp only: n e)
  then show ?thesis
    by (simp add: of_rat_divide)
qed

theorem roc_sweep_curves_witness:
  "\<exists>curve_fpr curve_tpr.
      roc_sweep [1, 0] [3 / 4, 1 / 4] = Inr (curve_fpr, curve_tpr)
      \<and> length curve_fpr = 101 \<and> length curve_tpr = 101
      \<and> curve_tpr ! 50 = Fin 1 \<and> curve_fpr ! 50 = Fin 0"
proof -
  have tpr: "classifier_true_positive_rate [1, 0] [3 / 4, 1 / 4] (1 / 2) = Fin 1"
    by (simp add: classifier_true_positive_rate_def count_equal_to_def np_int_div_def
        upt_conv_Cons)
  have fpr: "classifier_false_positive_rate [1, 0] [3 / 4, 1 / 4] (1 / 2) = Fin 0"
    by (simp add: classifier_false_positive_rate_def count_equal_to_def np_int_div_def
        np_sub_def upt_conv_Cons)
  have same: "length [1, 0 :: real] = length [3 / 4, 1 / 4 :: real]"
    by simp
  from roc_sweep_curves [OF same]
  obtain curve_fpr curve_tpr where
    ret: "roc_sweep [1, 0] [3 / 4, 1 / 4] = Inr (curve_fpr, curve_tpr)"
    and len: "length curve_fpr = 101" "length curve_tpr = 101"
    and pts: "\<forall>i < 101.
                 curve_tpr ! i = classifier_true_positive_rate [1, 0] [3 / 4, 1 / 4]
                                   (thresholds ! i)
               \<and> curve_fpr ! i = classifier_false_positive_rate [1, 0] [3 / 4, 1 / 4]
                                   (thresholds ! i)"
    by blast
  have "(50::nat) < 101" by simp
  with pts have "curve_tpr ! 50 = Fin 1" "curve_fpr ! 50 = Fin 0"
    by (simp_all add: threshold_50 tpr fpr)
  with ret len show ?thesis by blast
qed

text \<open>
  C2, as stated, fails: the thresholds are not exactly 0.00, 0.01, ..., 1.00. The
  entry of index 70 is 0.7000000000000001, neither the number 7/10 nor the float64
  0.7; for a case whose predicted probability is the float64 0.7 the sweep appends
  the true-positive rate 0 there, where the classifier with the threshold 0.7 has
  the rate 1.
\<close>

theorem roc_sweep_threshold_70_counterexample:
  "thresholds ! 70 \<noteq> 7 / 10
   \<and> thresholds ! 70 \<noteq> real_of_rat (round64 (7 / 10))
   \<and> swept_true_positive_rate 70 [1, 0] [real_of_rat (round64 (7 / 10)), 1 / 4]
       = Inr (Fin 0)
   \<and> classifier_true_positive_rate [1, 0] [real_of_rat (round64 (7 / 10)), 1 / 4]
         (real_of_rat (round64 (7 / 10))) = Fin 1"
proof -
  have v70: "float64_add 0 (float64_mul 70 (round64 (1 / 100)))
               = 6305039478318695 / 9007199254740992"
    by code_simp
  have p07: "round64 (7 / 10) = 3152519739159347 / 4503599627370496"
    by code_simp
  have n: "(of_nat 70 :: rat) = 70" by simp
  have "thresholds ! 70
          = real_of_rat (float64_add 0 (float64_mul (of_nat 70) (round64 (1 / 100))))"
    by (rule nth_thresholds) simp
  then have "thresholds ! 70 = real_of_rat (6305039478318695 / 9007199254740992)"
    by (simp only: n v70)
  then have t70: "thresholds ! 70 = 6305039478318695 / 9007199254740992"
    by (simp add: of_rat_divide)
  have "real_of_rat (round64 (7 / 10))
          = real_of_rat (3152519739159347 / 4503599627370496)"
    by (simp only: p07)
  then have p: "real_of_rat (round64 (7 / 10)) = 3152519739159347 / 4503599627370496"
    by (simp add: of_rat_divide)
  have same: "length [1, 0 :: real]
                = length [3152519739159347 / 4503599627370496, 1 / 4 :: real]"
    by simp
  have at70: "classifier_true_positive_rate [1, 0]
                [3152519739159347 / 4503599627370496, 1 / 4]
                (6305039478318695 / 9007199254740992) = Fin 0"
    by (simp add: classifier_true_positive_rate_def count_equal_to_def np_int_div_def
        upt_conv_Cons)
  have swept: "swept_true_positive_rate 70 [1, 0]
                 [3152519739159347 / 4503599627370496, 1 / 4] = Inr (Fin 0)"
    by (simp add: swept_true_positive_rate_def roc_sweep_result [OF same] length_thresholds
        t70 at70)
  have claimed: "classifier_true_positive_rate [1, 0]
                   [3152519739159347 / 4503599627370496, 1 / 4]
                   (3152519739159347 / 4503599627370496) = Fin 1"
    by (simp add: classifier_true_positive_rate_def count_equal_to_def np_int_div_def
        upt_conv_Cons)
  show ?thesis
    unfolding p using swept claimed by (simp add: t70)
qed

lemma thresholds_first: "thresholds \<noteq> [] \<and> hd thresholds = 0"
proof -
  have ne: "thresholds \<noteq> []"
    using length_thresholds by auto
  have "hd thresholds = thresholds ! 0"
    using ne by (simp add: hd_conv_nth)
  then show ?thesis
    using ne nth_thresholds [of 0]
    by (simp add: float64_add_def float64_mul_def round64_zero)
qed

lemma count_equal_to_pos: "c \<in> set xs \<Longrightarrow> 0 < count_equal_to c xs"
  by (auto simp: count_equal_to_def filter_empty_conv)

lemma count_equal_to_index:
  "count_equal_to c xs = length (filter (\<lambda>i. xs ! i = c) [0..<length xs])"
proof -
  have "count_equal_to c xs = length (filter (\<lambda>x. x = c) (map (\<lambda>i. xs ! i) [0..<length xs]))"
    by (simp add: count_equal_to_def map_nth)
  then show ?thesis
    by (simp add: filter_map comp_def)
qed

lemma np_int_div_self: "0 < n \<Longrightarrow> np_int_div n n = Fin 1"
  by (simp add: np_int_div_def)

lemma np_int_div_zero_pos: "0 < n \<Longrightarrow> np_int_div 0 n = Fin 0"
  by (simp add: np_int_div_def)

text \<open>
  C10. With an observed positive and an observed negative in \<open>y_test\<close>, and
  probabilities that are all at least 0, the first point of the sweep (threshold 0,
  every case classified positive) has true-positive rate 1 and false-positive rate 1.
\<close>

theorem roc_sweep_first_point:
  assumes "length y_test = length probability_survival"
    and "1 \<in> set y_test"
    and "0 \<in> set y_test"
    and "\<forall>p \<in> set probability_survival. 0 \<le> p"
  shows "\<exists>curve_fpr curve_tpr.
           roc_sweep y_test probability_survival = Inr (curve_fpr, curve_tpr)
           \<and> hd thresholds = 0
           \<and> hd curve_tpr = Fin 1 \<and> hd curve_fpr = Fin 1"
proof -
  have all_pos: "0 \<le> probability_survival ! i" if "i < length y_test" for i
    using assms(1,4) that by simp
  have "length (filter (\<lambda>i. 0 \<le> probability_survival ! i \<and> y_test ! i = 1)
                  [0..<length y_test])
          = length (filter (\<lambda>i. y_test ! i = 1) [0..<length y_test])"
    by (rule length_filter_cong_upt) (simp add: all_pos)
  then have tpr: "classifier_true_positive_rate y_test probability_survival 0 = Fin 1"
    using count_equal_to_pos [OF assms(2)]
    by (simp add: classifier_true_positive_rate_def count_equal_to_index [symmetric]
        np_int_div_self)
  have "length (filter (\<lambda>i. \<not> 0 \<le> probability_survival ! i \<and> y_test ! i = 0)
                  [0..<length y_test])
          = length (filter (\<lambda>i. False) [0..<length y_test])"
    by (rule length_filter_cong_upt) (simp add: all_pos)
  then have fpr: "classifier_false_positive_rate y_test probability_survival 0 = Fin 1"
    using count_equal_to_pos [OF assms(3)]
    by (simp add: classifier_false_positive_rate_def np_int_div_zero_pos np_sub_def)
  show ?thesis
    using thresholds_first
    by (simp add: roc_sweep_result [OF assms(1)] hd_map tpr fpr)
qed

theorem roc_sweep_first_point_witness:
  "\<exists>curve_fpr curve_tpr.
      roc_sweep [1, 0] [3 / 4, 1 / 4] = Inr (curve_fpr, curve_tpr)
      \<and> hd curve_tpr = Fin 1 \<and> hd curve_fpr = Fin 1"
proof -
  have "\<exists>curve_fpr curve_tpr.
          roc_sweep [1, 0] [3 / 4, 1 / 4] = Inr (curve_fpr, curve_tpr)
          \<and> hd thresholds = 0
          \<and> hd curve_tpr = Fin 1 \<and> hd curve_fpr = Fin 1"
    by (rule roc_sweep_first_point) simp_all
  then show ?thesis by blast
qed

section \<open>Properties of the forward feature selection\<close>

lemma available_loop_result:
  "\<exists>b' f'. available_loop accuracy_test chosen cands (b, f) = (b', f')
     \<and> ((b' = b \<and> f' = f
           \<and> (\<forall>g \<in> set cands. feature_accuracy accuracy_test (chosen @ [g]) \<le> b))
        \<or> (b < b' \<and> greedy_choice accuracy_test chosen cands f' b'))"
proof (induction cands arbitrary: b f)
  case Nil
  show ?case by simp
next
  case (Cons c rest)
  let ?a = "feature_accuracy accuracy_test (chosen @ [c])"
  show ?case
  proof (cases "?a > b")
    case True
    from Cons.IH [of ?a c] obtain b' f' where
      res: "available_loop accuracy_test chosen rest (?a, c) = (b', f')"
      and alt: "(b' = ?a \<and> f' = c
                  \<and> (\<forall>g \<in> set rest. feature_accuracy accuracy_test (chosen @ [g]) \<le> ?a))
                \<or> (?a < b' \<and> greedy_choice accuracy_test chosen rest f' b')"
      by blast
    have step: "available_loop accuracy_test chosen (c # rest) (b, f) = (b', f')"
      using True res by simp
    from alt have "b < b' \<and> greedy_choice accuracy_test chosen (c # rest) f' b'"
    proof
      assume h: "b' = ?a \<and> f' = c
                  \<and> (\<forall>g \<in> set rest. feature_accuracy accuracy_test (chosen @ [g]) \<le> ?a)"
      then have "c # rest = [] @ f' # rest" by simp
      with h have "greedy_choice accuracy_test chosen (c # rest) f' b'"
        unfolding greedy_choice_def by (intro exI [of _ "[]"] exI [of _ rest]) simp
      with h True show ?thesis by simp
    next
      assume h: "?a < b' \<and> greedy_choice accuracy_test chosen rest f' b'"
      then obtain before after where
        sp: "rest = before @ f' # after"
        and a: "b' = feature_accuracy accuracy_test (chosen @ [f'])"
        and lt: "\<forall>g \<in> set before. feature_accuracy accuracy_test (chosen @ [g]) < b'"
        and le: "\<forall>g \<in> set after. feature_accuracy accuracy_test (chosen @ [g]) \<le> b'"
        unfolding greedy_choice_def by blast
      have "c # rest = (c # before) @ f' # after" using sp by simp
      moreover have "\<forall>g \<in> set (c # before). feature_accuracy accuracy_test (chosen @ [g]) < b'"
        using lt h by simp
      ultimately have "greedy_choice accuracy_test chosen (c # rest) f' b'"
        unfolding greedy_choice_def using a le by blast
      with h True show ?thesis by simp
    qed
    with step show ?thesis by blast
  next
    case False
    from Cons.IH [of b f] obtain b' f' where
      res: "available_loop accuracy_test chosen rest (b, f) = (b', f')"
      and alt: "(b' = b \<and> f' = f
                  \<and> (\<forall>g \<in> set rest. feature_accuracy accuracy_test (chosen @ [g]) \<le> b))
                \<or> (b < b' \<and> greedy_choice accuracy_test chosen rest f' b')"
      by blast
    have step: "available_loop accuracy_test chosen (c # rest) (b, f) = (b', f')"
      using False res by simp
    from alt have "(b' = b \<and> f' = f
                  \<and> (\<forall>g \<in> set (c # rest). feature_accuracy accuracy_test (chosen @ [g]) \<le> b))
                \<or> (b < b' \<and> greedy_choice accuracy_test chosen (c # rest) f' b')"
    proof
      assume "b' = b \<and> f' = f
                  \<and> (\<forall>g \<in> set rest. feature_accuracy accuracy_test (chosen @ [g]) \<le> b)"
      with False show ?thesis by simp
    next
      assume h: "b < b' \<and> greedy_choice accuracy_test chosen rest f' b'"
      then obtain before after where
        sp: "rest = before @ f' # after"
        and a: "b' = feature_accuracy accuracy_test (chosen @ [f'])"
        and lt: "\<forall>g \<in> set before. feature_accuracy accuracy_test (chosen @ [g]) < b'"
        and le: "\<forall>g \<in> set after. feature_accuracy accuracy_test (chosen @ [g]) \<le> b'"
        unfolding greedy_choice_def by blast
      have "c # rest = (c # before) @ f' # after" using sp by simp
      moreover have "\<forall>g \<in> set (c # before). feature_accuracy accuracy_test (chosen @ [g]) < b'"
        using lt h False by simp
      ultimately have "greedy_choice accuracy_test chosen (c # rest) f' b'"
        unfolding greedy_choice_def using a le by blast
      with h show ?thesis by simp
    qed
    with step show ?thesis by blast
  qed
qed

lemma greedy_choice_member: "greedy_choice accuracy_test chosen cands f a \<Longrightarrow> f \<in> set cands"
  unfolding greedy_choice_def by auto

lemma filter_neq_notin: "f \<notin> set xs \<Longrightarrow> filter (\<lambda>g. g \<noteq> f) xs = xs"
  by (induction xs) auto

lemma remove1_distinct_filter: "distinct xs \<Longrightarrow> remove1 f xs = filter (\<lambda>g. g \<noteq> f) xs"
  by (induction xs) (auto simp: filter_neq_notin)

lemma selection_step_result:
  assumes pos: "\<exists>g \<in> set (available_features s).
                  0 < feature_accuracy accuracy_test (chosen_features s @ [g])"
    and dist: "distinct (available_features s)"
  shows "\<exists>f a. selection_step accuracy_test s
                 = Inr \<lparr> accuracy_by_feature_number = accuracy_by_feature_number s @ [a],
                         chosen_features = chosen_features s @ [f],
                         available_features = filter (\<lambda>g. g \<noteq> f) (available_features s),
                         run = run s + 1 \<rparr>
               \<and> greedy_choice accuracy_test (chosen_features s) (available_features s) f a"
proof -
  obtain b' f' where
    res: "available_loop accuracy_test (chosen_features s) (available_features s) (0, '''')
            = (b', f')"
    and alt: "(b' = 0 \<and> f' = ''''
                \<and> (\<forall>g \<in> set (available_features s).
                      feature_accuracy accuracy_test (chosen_features s @ [g]) \<le> 0))
              \<or> (0 < b' \<and> greedy_choice accuracy_test (chosen_features s)
                              (available_features s) f' b')"
    using available_loop_result [of accuracy_test "chosen_features s" "available_features s" 0 "''''"]
    by blast
  from pos have "\<not> (\<forall>g \<in> set (available_features s).
                      feature_accuracy accuracy_test (chosen_features s @ [g]) \<le> 0)"
    by (auto simp: not_le)
  with alt have gc: "greedy_choice accuracy_test (chosen_features s) (available_features s) f' b'"
    by blast
  then have mem: "f' \<in> set (available_features s)"
    by (rule greedy_choice_member)
  have "selection_step accuracy_test s
          = Inr \<lparr> accuracy_by_feature_number = accuracy_by_feature_number s @ [b'],
                  chosen_features = chosen_features s @ [f'],
                  available_features = filter (\<lambda>g. g \<noteq> f') (available_features s),
                  run = run s + 1 \<rparr>"
    by (simp add: selection_step_def res mem remove1_distinct_filter [OF dist])
  with gc show ?thesis by blast
qed

lemma length_filter_neq_distinct:
  "distinct xs \<Longrightarrow> f \<in> set xs \<Longrightarrow> Suc (length (filter (\<lambda>g. g \<noteq> f) xs)) = length xs"
  by (induction xs) (auto simp: filter_neq_notin)

lemma selection_loop_result:
  assumes pos: "\<forall>chosen g. set chosen \<subseteq> N \<and> g \<in> N \<longrightarrow>
                  0 < feature_accuracy accuracy_test (chosen @ [g])"
  shows "distinct (available_features s) \<Longrightarrow> n \<le> length (available_features s) \<Longrightarrow>
         set (chosen_features s) \<subseteq> N \<Longrightarrow> set (available_features s) \<subseteq> N \<Longrightarrow>
         \<exists>new accs.
           length new = n \<and> length accs = n \<and> distinct new
           \<and> set new \<subseteq> set (available_features s)
           \<and> selection_loop accuracy_test n s
               = Inr \<lparr> accuracy_by_feature_number = accuracy_by_feature_number s @ accs,
                       chosen_features = chosen_features s @ new,
                       available_features
                         = filter (\<lambda>g. g \<notin> set new) (available_features s),
                       run = run s + n \<rparr>
           \<and> (\<forall>i < n. greedy_choice accuracy_test (chosen_features s @ take i new)
                          (filter (\<lambda>g. g \<notin> set (take i new)) (available_features s))
                          (new ! i) (accs ! i))"
proof (induction n arbitrary: s)
  case 0
  show ?case by simp
next
  case (Suc n)
  obtain g where g: "g \<in> set (available_features s)"
    using Suc.prems(2) by (cases "available_features s") auto
  then have "0 < feature_accuracy accuracy_test (chosen_features s @ [g])"
    using pos Suc.prems(3,4) by blast
  with g have some: "\<exists>g \<in> set (available_features s).
                  0 < feature_accuracy accuracy_test (chosen_features s @ [g])"
    by blast
  obtain f a where
    step: "selection_step accuracy_test s
             = Inr \<lparr> accuracy_by_feature_number = accuracy_by_feature_number s @ [a],
                     chosen_features = chosen_features s @ [f],
                     available_features = filter (\<lambda>g. g \<noteq> f) (available_features s),
                     run = run s + 1 \<rparr>"
    and gc: "greedy_choice accuracy_test (chosen_features s) (available_features s) f a"
    using selection_step_result [OF some Suc.prems(1)] by blast
  let ?s1 = "\<lparr> accuracy_by_feature_number = accuracy_by_feature_number s @ [a],
               chosen_features = chosen_features s @ [f],
               available_features = filter (\<lambda>g. g \<noteq> f) (available_features s),
               run = run s + 1 \<rparr>"
  have mem: "f \<in> set (available_features s)"
    using gc by (rule greedy_choice_member)
  have d1: "distinct (available_features ?s1)"
    using Suc.prems(1) by simp
  have n1: "n \<le> length (available_features ?s1)"
    using length_filter_neq_distinct [OF Suc.prems(1) mem] Suc.prems(2) by simp
  have ch1: "set (chosen_features ?s1) \<subseteq> N"
    using Suc.prems(3,4) mem by auto
  have av1: "set (available_features ?s1) \<subseteq> N"
    using Suc.prems(4) by auto
  from Suc.IH [OF d1 n1 ch1 av1] obtain new accs where
    ln: "length new = n" and la: "length accs = n" and dn: "distinct new"
    and sub: "set new \<subseteq> set (available_features ?s1)"
    and loop: "selection_loop accuracy_test n ?s1
                 = Inr \<lparr> accuracy_by_feature_number = accuracy_by_feature_number ?s1 @ accs,
                         chosen_features = chosen_features ?s1 @ new,
                         available_features
                           = filter (\<lambda>g. g \<notin> set new) (available_features ?s1),
                         run = run ?s1 + n \<rparr>"
    and each: "\<forall>i < n. greedy_choice accuracy_test (chosen_features ?s1 @ take i new)
                          (filter (\<lambda>g. g \<notin> set (take i new)) (available_features ?s1))
                          (new ! i) (accs ! i)"
    by blast
  let ?new = "f # new" and ?accs = "a # accs"
  have f_notin: "f \<notin> set new" using sub by auto
  have c1: "length ?new = Suc n" "length ?accs = Suc n" using ln la by simp_all
  have c2: "distinct ?new" using dn f_notin by simp
  have c3: "set ?new \<subseteq> set (available_features s)" using sub mem by auto
  have filt: "filter (\<lambda>g. g \<notin> set xs) (filter (\<lambda>g. g \<noteq> f) ys)
                = filter (\<lambda>g. g \<notin> set (f # xs)) ys" for xs ys :: "string list"
    by (induction ys) auto
  have c4: "selection_loop accuracy_test (Suc n) s
              = Inr \<lparr> accuracy_by_feature_number = accuracy_by_feature_number s @ ?accs,
                      chosen_features = chosen_features s @ ?new,
                      available_features
                        = filter (\<lambda>g. g \<notin> set ?new) (available_features s),
                      run = run s + Suc n \<rparr>"
    using step loop by (simp add: filt)
  have c5: "greedy_choice accuracy_test (chosen_features s @ take i ?new)
              (filter (\<lambda>g. g \<notin> set (take i ?new)) (available_features s))
              (?new ! i) (?accs ! i)" if "i < Suc n" for i
  proof (cases i)
    case 0
    then show ?thesis using gc by simp
  next
    case (Suc j)
    then have "j < n" using that by simp
    with each have "greedy_choice accuracy_test (chosen_features ?s1 @ take j new)
                          (filter (\<lambda>g. g \<notin> set (take j new)) (available_features ?s1))
                          (new ! j) (accs ! j)"
      by blast
    then show ?thesis using Suc by (simp add: filt)
  qed
  show ?case
    using c1 c2 c3 c4 c5 by blast
qed

lemma feature_accuracy_five_splits:
  "feature_accuracy accuracy_test fs
     = float64_div
         (float64_add (float64_add (float64_add (float64_add (float64_add 0
            (accuracy_test fs 0)) (accuracy_test fs 1)) (accuracy_test fs 2))
            (accuracy_test fs 3)) (accuracy_test fs 4))
         5"
proof -
  have "[0..<5] = [0, 1, 2, 3, 4 :: nat]"
    by code_simp
  then show ?thesis
    by (simp add: feature_accuracy_def number_of_splits_def)
qed

text \<open>
  C3. In the setting of the notebook (distinct feature names, at least 20 of them,
  and a mean accuracy greater than 0 for any features among the names followed by
  any candidate among them) the loop runs exactly 20 passes. A pass takes, for every feature still available, the mean
  accuracy over the 5 splits of the features chosen so far plus that candidate; it
  appends the candidate of highest mean accuracy (no candidate exceeds it, and
  every candidate before it in the list stays strictly below it) to
  \<open>chosen_features\<close>, appends that accuracy to \<open>accuracy_by_feature_number\<close>, and
  removes the feature from \<open>available_features\<close>.
\<close>

theorem forward_selection_passes:
  assumes "distinct feature_names"
    and "maximum_features_to_choose \<le> length feature_names"
    and "\<forall>chosen g. set chosen \<subseteq> set feature_names \<and> g \<in> set feature_names \<longrightarrow>
           0 < feature_accuracy accuracy_test (chosen @ [g])"
  shows "\<exists>s. feature_selection accuracy_test feature_names = Inr s
           \<and> run s = 20
           \<and> length (chosen_features s) = 20
           \<and> length (accuracy_by_feature_number s) = 20
           \<and> distinct (chosen_features s)
           \<and> set (chosen_features s) \<subseteq> set feature_names
           \<and> available_features s
               = filter (\<lambda>g. g \<notin> set (chosen_features s)) feature_names
           \<and> (\<forall>i < 20.
                 greedy_choice accuracy_test (take i (chosen_features s))
                   (filter (\<lambda>g. g \<notin> set (take i (chosen_features s))) feature_names)
                   (chosen_features s ! i) (accuracy_by_feature_number s ! i))
           \<and> (\<forall>fs. feature_accuracy accuracy_test fs
                 = float64_div
                     (float64_add (float64_add (float64_add (float64_add (float64_add 0
                        (accuracy_test fs 0)) (accuracy_test fs 1)) (accuracy_test fs 2))
                        (accuracy_test fs 3)) (accuracy_test fs 4))
                     5)"
proof -
  let ?s0 = "\<lparr> accuracy_by_feature_number = [], chosen_features = [],
               available_features = feature_names, run = 0 \<rparr>"
  have d0: "distinct (available_features ?s0)" using assms(1) by simp
  have n0: "20 \<le> length (available_features ?s0)"
    using assms(2) by (simp add: maximum_features_to_choose_def)
  have ch0: "set (chosen_features ?s0) \<subseteq> set feature_names" by simp
  have av0: "set (available_features ?s0) \<subseteq> set feature_names" by simp
  from selection_loop_result [of "set feature_names" accuracy_test ?s0 20,
      OF assms(3) d0 n0 ch0 av0]
  obtain new accs where
    ln: "length new = 20" and la: "length accs = 20" and dn: "distinct new"
    and sub: "set new \<subseteq> set feature_names"
    and loop: "selection_loop accuracy_test 20 ?s0
                 = Inr \<lparr> accuracy_by_feature_number = accs, chosen_features = new,
                         available_features = filter (\<lambda>g. g \<notin> set new) feature_names,
                         run = 20 \<rparr>"
    and each: "\<forall>i < 20. greedy_choice accuracy_test (take i new)
                          (filter (\<lambda>g. g \<notin> set (take i new)) feature_names)
                          (new ! i) (accs ! i)"
    by auto
  let ?s = "\<lparr> accuracy_by_feature_number = accs, chosen_features = new,
              available_features = filter (\<lambda>g. g \<notin> set new) feature_names,
              run = 20 \<rparr>"
  have ret: "feature_selection accuracy_test feature_names = Inr ?s"
    using loop by (simp add: feature_selection_def maximum_features_to_choose_def)
  have five: "\<forall>fs. feature_accuracy accuracy_test fs
                 = float64_div
                     (float64_add (float64_add (float64_add (float64_add (float64_add 0
                        (accuracy_test fs 0)) (accuracy_test fs 1)) (accuracy_test fs 2))
                        (accuracy_test fs 3)) (accuracy_test fs 4))
                     5"
    using feature_accuracy_five_splits by blast
  show ?thesis
    apply (rule exI [of _ ?s])
    using ret ln la dn sub each five
    by simp
qed

lemma flat_accuracy_mean: "feature_accuracy flat_accuracy fs = round64 (4 / 5)"
proof -
  have "float64_div
          (float64_add (float64_add (float64_add (float64_add (float64_add 0
             (round64 (4 / 5))) (round64 (4 / 5))) (round64 (4 / 5)))
             (round64 (4 / 5))) (round64 (4 / 5)))
          5 = round64 (4 / 5)"
    by code_simp
  then show ?thesis
    by (simp only: feature_accuracy_five_splits flat_accuracy_def)
qed

lemma round64_four_fifths_pos: "0 < round64 (4 / 5)"
  by code_simp

theorem forward_selection_passes_witness:
  "\<exists>s. feature_selection flat_accuracy
          [''a'', ''b'', ''c'', ''d'', ''e'', ''f'', ''g'', ''h'', ''i'', ''j'',
           ''k'', ''l'', ''m'', ''n'', ''o'', ''p'', ''q'', ''r'', ''s'', ''t''] = Inr s
        \<and> run s = 20 \<and> length (chosen_features s) = 20"
proof -
  let ?names = "[''a'', ''b'', ''c'', ''d'', ''e'', ''f'', ''g'', ''h'', ''i'', ''j'',
                 ''k'', ''l'', ''m'', ''n'', ''o'', ''p'', ''q'', ''r'', ''s'', ''t'']"
  have d: "distinct ?names" by simp
  have n: "maximum_features_to_choose \<le> length ?names"
    by (simp add: maximum_features_to_choose_def)
  have p: "\<forall>chosen g. set chosen \<subseteq> set ?names \<and> g \<in> set ?names \<longrightarrow>
             0 < feature_accuracy flat_accuracy (chosen @ [g])"
    by (simp only: flat_accuracy_mean round64_four_fifths_pos) simp
  from forward_selection_passes [OF d n p] show ?thesis by blast
qed

text \<open>
  Two candidates whose fold accuracies are the same five numbers in another order:
  the float64 means are 0.5599999999999999 and 0.56, and the pass chooses the
  second candidate.
\<close>

lemma reordered_accuracy_means:
  "feature_accuracy reordered_accuracy [''x0''] < feature_accuracy reordered_accuracy [''x1'']
   \<and> feature_accuracy reordered_accuracy [''x1''] = round64 (14 / 25)"
  by code_simp

lemma selection_step_reordered:
  "selection_step reordered_accuracy
     \<lparr> accuracy_by_feature_number = [], chosen_features = [],
       available_features = [''x0'', ''x1''], run = 0 \<rparr>
   = Inr \<lparr> accuracy_by_feature_number = [round64 (14 / 25)], chosen_features = [''x1''],
           available_features = [''x0''], run = 1 \<rparr>"
proof -
  have pos: "0 < feature_accuracy reordered_accuracy [''x0'']"
    by code_simp
  show ?thesis
    using reordered_accuracy_means pos by (simp add: selection_step_def)
qed

section \<open>Properties of standardise_data\<close>

lemma sum_list_shift_scale:
  "sum_list (map (\<lambda>x. (x - c) / s) xs) = (sum_list xs - real (length xs) * c) / (s::real)"
proof (induction xs)
  case Nil
  show ?case by simp
next
  case (Cons a xs)
  have "(a - c) / s + (sum_list xs - real (length xs) * c) / s
          = ((a - c) + (sum_list xs - real (length xs) * c)) / s"
    by (simp add: add_divide_distrib)
  also have "\<dots> = (sum_list (a # xs) - real (length (a # xs)) * c) / s"
    by (simp add: algebra_simps)
  finally show ?case using Cons.IH by simp
qed

lemma np_mean_values_standardised:
  assumes "xs \<noteq> []"
  shows "np_mean_values (map (\<lambda>x. (x - np_mean_values xs) / s) xs) = 0"
proof -
  have "real (length xs) \<noteq> 0" using assms by simp
  then show ?thesis
    by (simp add: np_mean_values_def sum_list_shift_scale)
qed

lemma np_var_values_nonneg: "0 \<le> np_var_values xs"
  unfolding np_var_values_def np_mean_values_def
  by (intro divide_nonneg_nonneg sum_list_nonneg) auto

lemma sum_list_squares_scaled:
  "sum_list (map (\<lambda>x. ((x - c) / s)\<^sup>2) xs) = sum_list (map (\<lambda>x. (x - c)\<^sup>2) xs) / (s::real)\<^sup>2"
  by (induction xs) (simp_all add: power_divide add_divide_distrib)

lemma np_var_values_standardised:
  assumes "xs \<noteq> []"
  shows "np_var_values (map (\<lambda>x. (x - np_mean_values xs) / s) xs) = np_var_values xs / s\<^sup>2"
proof -
  have m: "np_mean_values (map (\<lambda>x. (x - np_mean_values xs) / s) xs) = 0"
    by (rule np_mean_values_standardised [OF assms])
  have "np_var_values (map (\<lambda>x. (x - np_mean_values xs) / s) xs)
          = sum_list (map (\<lambda>x. ((x - np_mean_values xs) / s)\<^sup>2) xs) / real (length xs)"
    unfolding np_var_values_def [of "map (\<lambda>x. (x - np_mean_values xs) / s) xs"] m
    by (simp add: np_mean_values_def comp_def)
  also have "\<dots> = np_var_values xs / s\<^sup>2"
    by (simp add: sum_list_squares_scaled np_var_values_def np_mean_values_def)
  finally show ?thesis .
qed

lemma np_var_values_unit:
  assumes "xs \<noteq> []" and "np_std_values xs \<noteq> 0"
  shows "np_var_values (map (\<lambda>x. (x - np_mean_values xs) / np_std_values xs) xs) = 1"
proof -
  have "(np_std_values xs)\<^sup>2 = np_var_values xs"
    by (simp add: np_std_values_def np_var_values_nonneg)
  moreover have "np_var_values xs \<noteq> 0"
    using assms(2) by (auto simp: np_std_values_def)
  ultimately show ?thesis
    by (simp add: np_var_values_standardised [OF assms(1)])
qed

lemma n_features_rectangular:
  assumes "X \<noteq> []" and "\<forall>row \<in> set X. length row = d"
  shows "n_features X = d"
  using assms by (cases X) (simp_all add: n_features_def)

lemma standardise_data_result:
  assumes "X_train \<noteq> []" and "\<forall>row \<in> set X_train. length row = d"
    and "X_test \<noteq> []" and "\<forall>row \<in> set X_test. length row = d"
    and "0 < d"
  shows "standardise_data X_train X_test
           = Inr (map (\<lambda>row. map (\<lambda>j. (row ! j - np_mean_values (np_column X_train j))
                                      / handle_zeros_in_scale
                                          (np_std_values (np_column X_train j)))
                              [0..<d]) X_train,
                  map (\<lambda>row. map (\<lambda>j. (row ! j - np_mean_values (np_column X_train j))
                                      / handle_zeros_in_scale
                                          (np_std_values (np_column X_train j)))
                              [0..<d]) X_test)"
proof -
  have ftrain: "n_features X_train = d"
    by (rule n_features_rectangular [OF assms(1,2)])
  have ftest: "n_features X_test = d"
    by (rule n_features_rectangular [OF assms(3,4)])
  have "length (hd X_train) = d"
    using ftrain by (simp add: n_features_def)
  then have cols: "hd X_train \<noteq> []"
    using assms(5) by auto
  let ?sc = "\<lparr> scaler_mean = map (\<lambda>j. np_mean_values (np_column X_train j)) [0..<d],
               scaler_scale = map (\<lambda>j. handle_zeros_in_scale
                                         (np_std_values (np_column X_train j))) [0..<d] \<rparr>"
  have fit: "scaler_fit X_train = Inr ?sc"
    using assms(1) cols by (simp add: scaler_fit_def np_mean_axis0_def np_std_axis0_def ftrain)
  have tr: "scaler_transform ?sc X
              = Inr (map (\<lambda>row. map (\<lambda>j. (row ! j - np_mean_values (np_column X_train j))
                                      / handle_zeros_in_scale
                                          (np_std_values (np_column X_train j)))
                              [0..<d]) X)"
    if "X \<noteq> []" and "n_features X = d" for X
    using that by (simp add: scaler_transform_def)
  show ?thesis
    by (simp add: standardise_data_def fit tr [OF assms(1) ftrain] tr [OF assms(3) ftest])
qed

lemma np_column_standardised:
  assumes "j < d"
  shows "np_column (map (\<lambda>row. map (\<lambda>j. (row ! j - m j) / s j) [0..<d]) X) j
           = map (\<lambda>x. (x - m j) / s j) (np_column X j)"
  using assms by (simp add: np_column_def comp_def)

text \<open>
  C5. standardise_data fits the scaler on \<open>X_train\<close> and returns both sets
  transformed with it: in every column whose training-set standard deviation is not
  zero, each entry of \<open>train_std\<close> and of \<open>test_std\<close> is the value minus the column
  mean of \<open>X_train\<close>, divided by the column standard deviation of \<open>X_train\<close>, and
  the column of \<open>train_std\<close> has mean 0 and variance 1.
\<close>

theorem standardise_data_training_statistics:
  assumes "X_train \<noteq> []" and "\<forall>row \<in> set X_train. length row = d"
    and "X_test \<noteq> []" and "\<forall>row \<in> set X_test. length row = d"
    and "0 < d"
  shows "\<exists>train_std test_std.
           standardise_data X_train X_test = Inr (train_std, test_std)
           \<and> length train_std = length X_train
           \<and> length test_std = length X_test
           \<and> (\<forall>j < d. np_std_values (np_column X_train j) \<noteq> 0 \<longrightarrow>
                 (\<forall>i < length X_train.
                     train_std ! i ! j
                       = (X_train ! i ! j - np_mean_values (np_column X_train j))
                           / np_std_values (np_column X_train j))
               \<and> (\<forall>i < length X_test.
                     test_std ! i ! j
                       = (X_test ! i ! j - np_mean_values (np_column X_train j))
                           / np_std_values (np_column X_train j))
               \<and> np_mean_values (np_column train_std j) = 0
               \<and> np_var_values (np_column train_std j) = 1)"
proof -
  let ?m = "\<lambda>j. np_mean_values (np_column X_train j)"
  let ?s = "\<lambda>j. handle_zeros_in_scale (np_std_values (np_column X_train j))"
  let ?f = "\<lambda>row. map (\<lambda>j. (row ! j - ?m j) / ?s j) [0..<d]"
  have ret: "standardise_data X_train X_test = Inr (map ?f X_train, map ?f X_test)"
    by (rule standardise_data_result [OF assms])
  have col_ne: "np_column X_train j \<noteq> []" for j
    using assms(1) by (simp add: np_column_def)
  have per_column:
    "(\<forall>i < length X_train.
         map ?f X_train ! i ! j = (X_train ! i ! j - ?m j) / np_std_values (np_column X_train j))
     \<and> (\<forall>i < length X_test.
         map ?f X_test ! i ! j = (X_test ! i ! j - ?m j) / np_std_values (np_column X_train j))
     \<and> np_mean_values (np_column (map ?f X_train) j) = 0
     \<and> np_var_values (np_column (map ?f X_train) j) = 1"
    if j: "j < d" and nz: "np_std_values (np_column X_train j) \<noteq> 0" for j
  proof -
    have s: "?s j = np_std_values (np_column X_train j)"
      using nz by (simp add: handle_zeros_in_scale_def)
    have col: "np_column (map ?f X_train) j
                 = map (\<lambda>x. (x - ?m j) / ?s j) (np_column X_train j)"
      by (rule np_column_standardised [OF j])
    have mean0: "np_mean_values (np_column (map ?f X_train) j) = 0"
      unfolding col by (rule np_mean_values_standardised [OF col_ne])
    have var1: "np_var_values (np_column (map ?f X_train) j) = 1"
      unfolding col s by (rule np_var_values_unit [OF col_ne nz])
    show ?thesis
      using j mean0 var1 by (simp add: s)
  qed
  show ?thesis
    apply (rule exI [of _ "map ?f X_train"])
    apply (rule exI [of _ "map ?f X_test"])
    using ret per_column by simp
qed

text \<open>
  A column whose training-set standard deviation is zero is only centred: the scale
  stored for it is 1.
\<close>

lemma standardise_data_constant_column:
  assumes "X_train \<noteq> []" and "\<forall>row \<in> set X_train. length row = d"
    and "X_test \<noteq> []" and "\<forall>row \<in> set X_test. length row = d"
    and "j < d" and "np_std_values (np_column X_train j) = 0"
  shows "\<exists>train_std test_std.
           standardise_data X_train X_test = Inr (train_std, test_std)
           \<and> (\<forall>i < length X_test.
                 test_std ! i ! j = X_test ! i ! j - np_mean_values (np_column X_train j))"
proof -
  have d: "0 < d" using assms(5) by simp
  show ?thesis
    using assms(5,6)
    by (simp add: standardise_data_result [OF assms(1-4) d] handle_zeros_in_scale_def)
qed

theorem standardise_data_training_statistics_witness:
  "\<exists>train_std test_std.
      standardise_data [[1], [3]] [[5]] = Inr (train_std, test_std)
      \<and> train_std ! 0 ! 0 = - 1 \<and> train_std ! 1 ! 0 = 1 \<and> test_std ! 0 ! 0 = 3
      \<and> np_mean_values (np_column train_std 0) = 0
      \<and> np_var_values (np_column train_std 0) = 1"
proof -
  have m: "np_mean_values (np_column [[1], [3]] 0) = 2"
    by (simp add: np_mean_values_def np_column_def)
  have v: "np_var_values (np_column [[1], [3]] 0) = 1"
    by (simp add: np_var_values_def np_mean_values_def np_column_def)
  have sd: "np_std_values (np_column [[1], [3]] 0) = 1"
    by (simp add: np_std_values_def v)
  have a1: "[[1], [3 :: real]] \<noteq> []" and a3: "[[5 :: real]] \<noteq> []" by simp_all
  have a2: "\<forall>row \<in> set [[1], [3 :: real]]. length row = 1" by simp
  have a4: "\<forall>row \<in> set [[5 :: real]]. length row = 1" by simp
  have a5: "0 < (1 :: nat)" by simp
  from standardise_data_training_statistics [OF a1 a2 a3 a4 a5]
  obtain train_std test_std where
    ret: "standardise_data [[1], [3]] [[5]] = Inr (train_std, test_std)"
    and cols: "\<forall>j < 1. np_std_values (np_column [[1], [3]] j) \<noteq> 0 \<longrightarrow>
                 (\<forall>i < length [[1], [3 :: real]].
                     train_std ! i ! j
                       = ([[1], [3]] ! i ! j - np_mean_values (np_column [[1], [3]] j))
                           / np_std_values (np_column [[1], [3]] j))
               \<and> (\<forall>i < length [[5 :: real]].
                     test_std ! i ! j
                       = ([[5]] ! i ! j - np_mean_values (np_column [[1], [3]] j))
                           / np_std_values (np_column [[1], [3]] j))
               \<and> np_mean_values (np_column train_std j) = 0
               \<and> np_var_values (np_column train_std j) = 1"
    by blast
  from cols have c0:
    "(\<forall>i < 2. train_std ! i ! 0 = ([[1], [3]] ! i ! 0 - 2) / 1)
     \<and> (\<forall>i < 1. test_std ! i ! 0 = ([[5]] ! i ! 0 - 2) / 1)
     \<and> np_mean_values (np_column train_std 0) = 0
     \<and> np_var_values (np_column train_std 0) = 1"
    by (simp add: m sd)
  then have "train_std ! 0 ! 0 = - 1" "train_std ! 1 ! 0 = 1" "test_std ! 0 ! 0 = 3"
    by simp_all
  with ret c0 show ?thesis by blast
qed

section \<open>Properties of the Monte Carlo Dropout estimate\<close>







section \<open>Properties of the download cell\<close>

lemma normpath_data_directory: "normpath data_directory = ''data''"
  by (simp add: normpath_def data_directory_def)

lemma normpath_csv: "normpath (data_directory @ ''processed_data.csv'') = ''data/processed_data.csv''"
  by (simp add: normpath_def data_directory_def)

lemma dirname_csv: "dirname (data_directory @ ''processed_data.csv'') = ''data''"
  by (simp add: dirname_def normpath_csv)

lemma os_path_exists_data_directory:
  "os_path_exists data_directory w = (''data'' \<in> directories w)"
  by (simp add: os_path_exists_def normpath_data_directory) (simp add: data_directory_def)

lemma download_cell_not_required:
  "download_cell remote csv_text index False w = (None, w)"
  by (simp add: download_cell_def)

lemma download_cell_fetch_fails:
  assumes "remote address = None"
  shows "download_cell remote csv_text index True w
           = (Some URLError, w\<lparr>requests := requests w @ [address]\<rparr>)"
  using assms by (simp add: download_cell_def pd_read_csv_def)

lemma download_cell_fetched:
  assumes "remote address = Some data"
  shows "download_cell remote csv_text index True w =
           (let w1 = w\<lparr>requests := requests w @ [address]\<rparr>
            in if ''data'' \<in> directories w then
                 (if ''data/processed_data.csv'' \<in> directories w
                  then (Some IsADirectoryError, w1)
                  else (None, w1\<lparr>files :=
                          (files w)(''data/processed_data.csv'' \<mapsto> csv_text index data)\<rparr>))
               else if ''data'' \<in> dom (files w) then (Some FileExistsError, w1)
               else
                 (let w2 = w1\<lparr>directories := insert ''data'' (directories w)\<rparr>
                  in if ''data/processed_data.csv'' \<in> directories w
                     then (Some IsADirectoryError, w2)
                     else (None, w2\<lparr>files :=
                             (files w)(''data/processed_data.csv'' \<mapsto> csv_text index data)\<rparr>)))"
  using assms
  by (simp add: download_cell_def pd_read_csv_def os_path_exists_data_directory os_makedirs_def
      to_csv_def normpath_data_directory normpath_csv dirname_csv Let_def)

text \<open>
  C8. With \<open>download_required\<close> true the cell requests the fixed URL once, creates
  the directory \<^verbatim>\<open>./data/\<close> only when it does not exist, and changes no file other
  than \<^verbatim>\<open>data/processed_data.csv\<close>; when it ends without an exception that file
  holds the text of the downloaded table. It ends without an exception whenever the
  web answers and neither name is taken by an entry of the other kind.
\<close>

theorem download_cell_effects:
  "requests (snd (download_cell remote csv_text index True w)) = requests w @ [address]
   \<and> directories w \<subseteq> directories (snd (download_cell remote csv_text index True w))
   \<and> directories (snd (download_cell remote csv_text index True w))
       \<subseteq> insert ''data'' (directories w)
   \<and> (''data'' \<in> directories w \<longrightarrow>
        directories (snd (download_cell remote csv_text index True w)) = directories w)
   \<and> (\<forall>p. p \<noteq> ''data/processed_data.csv'' \<longrightarrow>
        files (snd (download_cell remote csv_text index True w)) p = files w p)
   \<and> (fst (download_cell remote csv_text index True w) = None \<longrightarrow>
        ''data'' \<in> directories (snd (download_cell remote csv_text index True w))
        \<and> (\<exists>data. remote address = Some data
              \<and> files (snd (download_cell remote csv_text index True w))
                   ''data/processed_data.csv'' = Some (csv_text index data)))
   \<and> ((\<exists>data. remote address = Some data) \<and> ''data'' \<notin> dom (files w)
        \<and> ''data/processed_data.csv'' \<notin> directories w \<longrightarrow>
        fst (download_cell remote csv_text index True w) = None)"
proof (cases "remote address")
  case None
  show ?thesis
    by (auto simp: download_cell_fetch_fails [of remote, OF None] None)
next
  case (Some data)
  show ?thesis
    by (auto simp: download_cell_fetched [of remote, OF Some] Some Let_def)
qed

theorem download_cell_effects_witness:
  "download_cell one_table plain_text False True empty_world
     = (None, \<lparr> directories = {''data''},
                files = [''data/processed_data.csv'' \<mapsto> ''Survived,Age''],
                requests = [address] \<rparr>)"
proof -
  let ?r = "download_cell one_table plain_text False True empty_world"
  have fetched: "\<exists>data. one_table address = Some data"
    by (simp add: one_table_def)
  have free: "''data'' \<notin> dom (files empty_world)"
    "''data/processed_data.csv'' \<notin> directories empty_world"
    by (simp_all add: empty_world_def)
  note e = download_cell_effects [of one_table plain_text False empty_world]
  from e fetched free have ok: "fst ?r = None" by blast
  from e have req: "requests (snd ?r) = [address]"
    by (simp add: empty_world_def)
  from e ok have dirs: "directories (snd ?r) = {''data''}"
    by (auto simp: empty_world_def)
  from e ok have written: "files (snd ?r) ''data/processed_data.csv'' = Some ''Survived,Age''"
    by (auto simp: one_table_def plain_text_def)
  from e have others: "\<forall>p. p \<noteq> ''data/processed_data.csv'' \<longrightarrow> files (snd ?r) p = None"
    by (simp add: empty_world_def)
  have "files (snd ?r) = [''data/processed_data.csv'' \<mapsto> ''Survived,Age'']"
    using written others by (intro ext) simp
  with ok req dirs show ?thesis
    by (cases ?r) simp
qed

end
